theory Spec2Isabelle
  imports Main "HOL-Library.AList" "HOL-Library.Multiset"
begin

section \<open>Schocken: dice, hand types and hands (src/src/schocken/base.py)\<close>

text \<open>
  Python exceptions are values of \<open>error\<close>; a function that may raise returns
  \<open>error + 'a\<close> with \<open>Inl\<close> for the exception. \<open>bindE\<close> sequences two such
  computations and stops at the first exception.
\<close>

datatype error =
    ValueError | AssertionError | TypeError | KeyError | IndexError
  | WarningRaised | StopIteration

definition bindE :: "error + 'a \<Rightarrow> ('a \<Rightarrow> error + 'b) \<Rightarrow> error + 'b" where
  "bindE m f = (case m of Inl e \<Rightarrow> Inl e | Inr x \<Rightarrow> f x)"

subsection \<open>Die\<close>

text \<open>
  The dataclass \<open>Die\<close>. It defines no \<open>__eq__\<close> of its own, so the dataclass compares
  dice field by field: two dice are equal when value, visible and taken_out agree.
  That is HOL equality on the record.
\<close>

record Die =
  die_value :: int
  visible :: bool
  taken_out :: bool

text \<open>\<open>Die(value)\<close> with \<open>__post_init__\<close>: the value is in 1..6 or is -1.\<close>

definition Die_init :: "int \<Rightarrow> bool \<Rightarrow> bool \<Rightarrow> error + Die" where
  "Die_init v vis out =
     (if \<not> (1 \<le> v \<and> v \<le> 6) \<and> \<not> v = -1 then Inl ValueError
      else Inr \<lparr>die_value = v, visible = vis, taken_out = out\<rparr>)"

definition make_a_one :: "Die \<Rightarrow> Die" where
  "make_a_one d = d\<lparr>die_value := 1, taken_out := True, visible := True\<rparr>"

text \<open>
  \<open>Die.throw\<close>: \<open>random.randint(1, 6)\<close> is the argument \<open>r\<close> reduced into 1..6, so that
  every natural number is a possible outcome of the random source.
\<close>

definition randint_1_6 :: "nat \<Rightarrow> int" where
  "randint_1_6 r = 1 + int (r mod 6)"

definition throw :: "nat \<Rightarrow> Die \<Rightarrow> Die" where
  "throw r d = d\<lparr>die_value := randint_1_6 r, taken_out := False, visible := False\<rparr>"

definition Die_copy :: "Die \<Rightarrow> error + Die" where
  "Die_copy d = Die_init (die_value d) (visible d) (taken_out d)"

subsection \<open>HandType\<close>

record HandType =
  hand_type :: string
  hand_type_value :: int

text \<open>\<open>HandType(hand_type, hand_type_value)\<close> with the validation of \<open>__post_init__\<close>.\<close>

definition HandType_init :: "string \<Rightarrow> int \<Rightarrow> error + HandType" where
  "HandType_init t v =
     (if t = [] then Inl ValueError
      else if t \<notin> set [''Schock-out'', ''Schock'', ''General'', ''Straight'', ''High Dice'']
        then Inl ValueError
      else if t \<in> set [''Schock'', ''General'', ''Straight'', ''High Dice''] \<and> v = 0
        then Inl ValueError
      else if t = ''Schock'' \<and> (v < 2 \<or> v > 6) then Inl ValueError
      else if t = ''General'' \<and> (v < 2 \<or> v > 6) then Inl ValueError
      else if t = ''Straight'' \<and> (v < 1 \<or> v > 4) then Inl ValueError
      else if t = ''High Dice'' \<and> (v < 221 \<or> v > 665) then Inl ValueError
      else Inr \<lparr>hand_type = t, hand_type_value = v\<rparr>)"

text \<open>The property \<open>chips\<close>.\<close>

definition chips :: "HandType \<Rightarrow> error + int" where
  "chips ht =
     (if hand_type ht = ''Schock-out'' then Inr 13
      else if hand_type ht = ''Schock'' then Inr (hand_type_value ht)
      else if hand_type ht = ''General'' then Inr 3
      else if hand_type ht = ''Straight'' then Inr 2
      else if hand_type ht = ''High Dice'' then Inr 1
      else Inl ValueError)"

text \<open>The property \<open>internal_rank\<close>.\<close>

definition internal_rank :: "HandType \<Rightarrow> error + int" where
  "internal_rank ht =
     (if hand_type ht = ''Schock-out'' then Inr 5000
      else if hand_type ht = ''Schock'' then Inr (4000 + hand_type_value ht)
      else if hand_type ht = ''General'' then Inr (3000 + hand_type_value ht)
      else if hand_type ht = ''Straight'' then Inr (2000 + hand_type_value ht)
      else if hand_type ht = ''High Dice'' then Inr (1000 + hand_type_value ht)
      else Inl ValueError)"

text \<open>\<open>HandType.__eq__\<close> and \<open>HandType.__lt__\<close> compare the internal ranks.\<close>

definition HandType_eq :: "HandType \<Rightarrow> HandType \<Rightarrow> error + bool" where
  "HandType_eq a b =
     bindE (internal_rank a) (\<lambda>ra. bindE (internal_rank b) (\<lambda>rb. Inr (ra = rb)))"

definition HandType_lt :: "HandType \<Rightarrow> HandType \<Rightarrow> error + bool" where
  "HandType_lt a b =
     bindE (internal_rank a) (\<lambda>ra. bindE (internal_rank b) (\<lambda>rb. Inr (ra < rb)))"

text \<open>
  A valid HandType is one that the constructor builds: the only way the program makes
  one.
\<close>

definition valid_HandType :: "HandType \<Rightarrow> bool" where
  "valid_HandType ht = (HandType_init (hand_type ht) (hand_type_value ht) = Inr ht)"

text \<open>
  The categories from worst to best, as the specification lists them; used to state the
  order that the ranks realise.
\<close>

definition category_position :: "string \<Rightarrow> nat" where
  "category_position t =
     (if t = ''High Dice'' then 0
      else if t = ''Straight'' then 1
      else if t = ''General'' then 2
      else if t = ''Schock'' then 3
      else 4)"

subsection \<open>Hand\<close>

text \<open>
  The dataclass \<open>Hand\<close>; \<open>cached_hand_type\<close> is the private field \<open>_hand_type\<close>
  (\<open>None\<close> until a hand type has been determined).
\<close>

record Hand =
  dice :: "Die list"
  cached_hand_type :: "HandType option"
  put_together :: bool
  players_turn_ind :: int
  finalized :: bool

text \<open>
  The property \<open>Hand.hand_type\<close>: with no cached type it returns \<open>HandType()\<close>, whose
  empty type string fails the validation.
\<close>

definition Hand_hand_type :: "Hand \<Rightarrow> error + HandType" where
  "Hand_hand_type h =
     (case cached_hand_type h of
        None \<Rightarrow> HandType_init [] 0
      | Some ht \<Rightarrow> Inr ht)"

text \<open>
  \<open>Hand.sort\<close>: \<open>list.sort(key=value, reverse=True)\<close> is a stable sort by descending
  value; \<open>sort_key\<close> is the stable insertion sort of the library.
\<close>

definition Hand_sort :: "Hand \<Rightarrow> Hand" where
  "Hand_sort h = h\<lparr>dice := sort_key (\<lambda>d. - die_value d) (dice h)\<rparr>"


text \<open>
  \<open>Hand.detemine_hand_type\<close>. \<open>len(set(values))\<close> is the number of distinct values,
  \<open>length (remdups values)\<close>. The branches that yield High Dice sort the dice of the hand
  in place first. With other than three dice the method returns at once and the cache
  keeps whatever it held.
\<close>

definition high_dice_value :: "Die list \<Rightarrow> int" where
  "high_dice_value ds =
     100 * die_value (ds ! 0) + 10 * die_value (ds ! 1) + die_value (ds ! 2)"

definition detemine_hand_type :: "Hand \<Rightarrow> error + Hand" where
  "detemine_hand_type h =
     (if length (dice h) \<noteq> 3 then Inr h
      else
        let ones_count = length (filter (\<lambda>d. die_value d = 1) (dice h));
            distinct_values = length (remdups (map die_value (dice h)))
        in
        if ones_count = 3 then
          bindE (HandType_init ''Schock-out'' 0)
            (\<lambda>ht. Inr (h\<lparr>cached_hand_type := Some ht\<rparr>))
        else if ones_count = 2 then
          (let die_list = filter (\<lambda>d. die_value d \<noteq> 1) (dice h) in
           if length die_list \<noteq> 1 then Inl AssertionError
           else bindE (HandType_init ''Schock'' (die_value (die_list ! 0)))
                  (\<lambda>ht. Inr (h\<lparr>cached_hand_type := Some ht\<rparr>)))
        else if distinct_values = 1 then
          bindE (HandType_init ''General'' (die_value (dice h ! 0)))
            (\<lambda>ht. Inr (h\<lparr>cached_hand_type := Some ht\<rparr>))
        else if distinct_values = 3 then
          (let sorted_values = sort (map die_value (dice h)) in
           if sorted_values = [1, 2, 3] \<and> \<not> put_together h then
             bindE (HandType_init ''Straight'' 1)
               (\<lambda>ht. Inr (h\<lparr>cached_hand_type := Some ht\<rparr>))
           else if sorted_values = [2, 3, 4] then
             bindE (HandType_init ''Straight'' 2)
               (\<lambda>ht. Inr (h\<lparr>cached_hand_type := Some ht\<rparr>))
           else if sorted_values = [3, 4, 5] then
             bindE (HandType_init ''Straight'' 3)
               (\<lambda>ht. Inr (h\<lparr>cached_hand_type := Some ht\<rparr>))
           else if sorted_values = [4, 5, 6] then
             bindE (HandType_init ''Straight'' 4)
               (\<lambda>ht. Inr (h\<lparr>cached_hand_type := Some ht\<rparr>))
           else
             (let h' = Hand_sort h in
              bindE (HandType_init ''High Dice'' (high_dice_value (dice h')))
                (\<lambda>ht. Inr (h'\<lparr>cached_hand_type := Some ht\<rparr>))))
        else
          (let h' = Hand_sort h in
           bindE (HandType_init ''High Dice'' (high_dice_value (dice h')))
             (\<lambda>ht. Inr (h'\<lparr>cached_hand_type := Some ht\<rparr>))))"

text \<open>\<open>Hand.update\<close>: sort, mark the hand assembled if a die is taken out, classify.\<close>

definition update :: "Hand \<Rightarrow> error + Hand" where
  "update h =
     (let h1 = Hand_sort h;
          h2 = (if list_ex taken_out (dice h1) then h1\<lparr>put_together := True\<rparr> else h1)
      in detemine_hand_type h2)"

text \<open>The constructor \<open>Hand(...)\<close>: the fields, then \<open>__post_init__\<close> calls \<open>update\<close>.\<close>

definition Hand_init :: "Die list \<Rightarrow> bool \<Rightarrow> int \<Rightarrow> bool \<Rightarrow> error + Hand" where
  "Hand_init ds pt ind fin =
     update \<lparr>dice = ds, cached_hand_type = None, put_together = pt,
             players_turn_ind = ind, finalized = fin\<rparr>"

text \<open>The setter of \<open>Hand.dice\<close>: store the list and \<open>update\<close>.\<close>

definition set_dice :: "Hand \<Rightarrow> Die list \<Rightarrow> error + Hand" where
  "set_dice h ds = update (h\<lparr>dice := ds\<rparr>)"

text \<open>
  \<open>Hand.__eq__\<close> and \<open>Hand.__lt__\<close>. Each reads \<open>self.hand_type\<close>, then
  \<open>other.hand_type\<close>, then compares.
\<close>

definition Hand_eq :: "Hand \<Rightarrow> Hand \<Rightarrow> error + bool" where
  "Hand_eq a b =
     (if players_turn_ind a = players_turn_ind b then
        bindE (Hand_hand_type a) (\<lambda>ta. bindE (Hand_hand_type b) (\<lambda>tb. HandType_eq ta tb))
      else Inr False)"

definition Hand_lt :: "Hand \<Rightarrow> Hand \<Rightarrow> error + bool" where
  "Hand_lt a b =
     bindE (Hand_hand_type a) (\<lambda>ta. bindE (Hand_hand_type b) (\<lambda>tb.
       bindE (HandType_eq ta tb) (\<lambda>same.
         if same then Inr (players_turn_ind a > players_turn_ind b)
         else bindE (Hand_hand_type a) (\<lambda>ta'. bindE (Hand_hand_type b) (\<lambda>tb'.
                HandType_lt ta' tb')))))"

text \<open>Monadic helpers for loops over lists that may raise.\<close>

fun mapE :: "('a \<Rightarrow> error + 'b) \<Rightarrow> 'a list \<Rightarrow> error + 'b list" where
  "mapE f [] = Inr []"
| "mapE f (x # xs) = bindE (f x) (\<lambda>y. bindE (mapE f xs) (\<lambda>ys. Inr (y # ys)))"

fun foldE :: "('s \<Rightarrow> 'a \<Rightarrow> error + 's) \<Rightarrow> 's \<Rightarrow> 'a list \<Rightarrow> error + 's" where
  "foldE f s [] = Inr s"
| "foldE f s (x # xs) = bindE (f s x) (\<lambda>s'. foldE f s' xs)"

text \<open>
  \<open>list.sort()\<close> with the elements' own \<open>__lt__\<close>, which may raise. Python compares
  with \<open><\<close> only and sorts stably; on at most 63 elements it is a binary insertion sort.
  The model inserts each element, from left to right, behind the elements it is not
  less than: the same stable result whenever \<open><\<close> is a strict weak order, and an
  exception whenever a comparison raises.
\<close>

fun insort_by :: "('a \<Rightarrow> 'a \<Rightarrow> error + bool) \<Rightarrow> 'a \<Rightarrow> 'a list \<Rightarrow> error + 'a list" where
  "insort_by lt x [] = Inr [x]"
| "insort_by lt x (y # ys) =
     bindE (lt x y) (\<lambda>less.
       if less then Inr (x # y # ys)
       else bindE (insort_by lt x ys) (\<lambda>zs. Inr (y # zs)))"

definition sort_by :: "('a \<Rightarrow> 'a \<Rightarrow> error + bool) \<Rightarrow> 'a list \<Rightarrow> error + 'a list" where
  "sort_by lt xs = foldE (\<lambda>acc x. insort_by lt x acc) [] xs"

text \<open>
  \<open>Hand.copy\<close>: a new empty \<open>Hand()\<close>, the copied dice stored through the setter, the
  flags and the cache copied, and a last \<open>update\<close>.
\<close>

definition Hand_copy :: "Hand \<Rightarrow> error + Hand" where
  "Hand_copy h =
     bindE (Hand_init [] False 0 False) (\<lambda>n0.
     bindE (mapE Die_copy (dice h)) (\<lambda>ds.
     bindE (set_dice n0 ds) (\<lambda>n1.
       update (n1\<lparr>put_together := put_together h,
                  players_turn_ind := players_turn_ind h,
                  finalized := finalized h,
                  cached_hand_type := cached_hand_type h\<rparr>))))"

text \<open>\<open>Hand.get_chip_count\<close>.\<close>

definition get_chip_count :: "Hand \<Rightarrow> error + int" where
  "get_chip_count h =
     (if length (dice h) \<noteq> 3 then Inl ValueError
      else bindE (Hand_hand_type h) (\<lambda>_. bindE (Hand_hand_type h) chips))"

text \<open>
  \<open>Hand.finalize\<close>: the length check, \<open>update\<close>, the loop that marks the hand assembled
  when a die is taken out, and the \<open>finalized\<close> flag. The loop assigns nothing to the
  dice.
\<close>

definition finalize :: "Hand \<Rightarrow> error + Hand" where
  "finalize h =
     (if length (dice h) \<noteq> 3 then Inl ValueError
      else bindE (update h) (\<lambda>h1.
        Inr ((foldl (\<lambda>acc d. if taken_out d then acc\<lparr>put_together := True\<rparr> else acc)
                h1 (dice h1))\<lparr>finalized := True\<rparr>)))"

text \<open>
  \<open>Hand.initialize\<close>: three new dice \<open>Die()\<close>, each with a random value from the three
  outcomes \<open>r1, r2, r3\<close>, stored through the setter; the flags are reset and the hand
  updated again.
\<close>

definition initialize :: "nat \<Rightarrow> nat \<Rightarrow> nat \<Rightarrow> Hand \<Rightarrow> error + Hand" where
  "initialize r1 r2 r3 h =
     bindE (mapE (\<lambda>r. Die_init (randint_1_6 r) False False) [r1, r2, r3]) (\<lambda>ds.
     bindE (set_dice h ds) (\<lambda>h1.
       update (h1\<lparr>put_together := False, finalized := False\<rparr>)))"

subsection \<open>Display names\<close>

text \<open>\<open>str(n)\<close> for an integer: decimal digits, with a minus sign when negative.\<close>

definition digit_char :: "nat \<Rightarrow> char" where
  "digit_char n = ''0123456789'' ! n"

function str_nat :: "nat \<Rightarrow> string" where
  "str_nat n = (if n < 10 then [digit_char n] else str_nat (n div 10) @ [digit_char (n mod 10)])"
  by pat_completeness auto
termination
  by (relation "measure (\<lambda>n. n)") auto

declare str_nat.simps [simp del]

definition str_int :: "int \<Rightarrow> string" where
  "str_int i = (if i < 0 then CHR ''-'' # str_nat (nat (- i)) else str_nat (nat i))"

text \<open>
  \<open>int(s)\<close> on a string: an optional sign and decimal digits; anything else raises
  ValueError. (Python also accepts surrounding whitespace and single underscores between
  digits; no name handled below contains either.)
\<close>

fun position_in :: "'a \<Rightarrow> 'a list \<Rightarrow> nat option" where
  "position_in x [] = None"
| "position_in x (y # ys) = (if x = y then Some 0 else map_option Suc (position_in x ys))"

definition digit_val :: "char \<Rightarrow> nat option" where
  "digit_val c = position_in c ''0123456789''"

fun digits_val :: "nat \<Rightarrow> string \<Rightarrow> nat option" where
  "digits_val acc [] = Some acc"
| "digits_val acc (c # cs) =
     (case digit_val c of None \<Rightarrow> None | Some d \<Rightarrow> digits_val (10 * acc + d) cs)"

definition py_int :: "string \<Rightarrow> error + int" where
  "py_int s =
     (let neg = (case s of [] \<Rightarrow> False | c # _ \<Rightarrow> c = CHR ''-'');
          ds = (case s of [] \<Rightarrow> []
                | c # cs \<Rightarrow> if c = CHR ''-'' \<or> c = CHR ''+'' then cs else s)
      in if ds = [] then Inl ValueError
         else (case digits_val 0 ds of
                 None \<Rightarrow> Inl ValueError
               | Some n \<Rightarrow> Inr (if neg then - int n else int n)))"

text \<open>\<open>sub in s\<close> on strings, and \<open>s.split(sep)\<close> for a separator of one character.\<close>

fun starts_with :: "string \<Rightarrow> string \<Rightarrow> bool" where
  "starts_with s [] = True"
| "starts_with [] (p # ps) = False"
| "starts_with (c # cs) (p # ps) = (c = p \<and> starts_with cs ps)"

fun str_contains :: "string \<Rightarrow> string \<Rightarrow> bool" where
  "str_contains [] sub = (sub = [])"
| "str_contains (c # cs) sub = (starts_with (c # cs) sub \<or> str_contains cs sub)"

fun split_chr :: "char \<Rightarrow> string \<Rightarrow> string list" where
  "split_chr sep [] = [[]]"
| "split_chr sep (c # cs) =
     (if c = sep then [] # split_chr sep cs
      else (case split_chr sep cs of
              [] \<Rightarrow> [[c]]
            | p # ps \<Rightarrow> (c # p) # ps))"

definition index_at :: "'a list \<Rightarrow> nat \<Rightarrow> error + 'a" where
  "index_at xs i = (if i < length xs then Inr (xs ! i) else Inl IndexError)"

text \<open>\<open>Hand.to_name\<close>. Every branch reads the property \<open>hand_type\<close> of the hand.\<close>

definition to_name :: "Hand \<Rightarrow> error + string" where
  "to_name h =
     bindE (Hand_hand_type h) (\<lambda>ht.
       if hand_type ht = ''Schock-out'' then Inr ''Schock-out''
       else if hand_type ht = ''Schock'' then Inr (''Schock-'' @ str_int (hand_type_value ht))
       else if hand_type ht = ''General'' then Inr (''General-'' @ str_int (hand_type_value ht))
       else if hand_type ht = ''Straight'' then
         (let val = hand_type_value ht
          in Inr (''Straight-'' @ str_int val @ '':'' @ str_int (val + 2)))
       else if hand_type ht = ''High Dice'' then
         (let val = str_int (hand_type_value ht) in
          bindE (index_at val 2) (\<lambda>c.
            let name = take 2 val @ ''-'' @ [c]
            in Inr (if val = ''221'' then ''Motte'' else name)))
       else Inr ''not defined'')"

text \<open>\<open>Hand.from_name\<close>.\<close>

definition from_name :: "string \<Rightarrow> error + Hand" where
  "from_name name =
     bindE (Hand_init [] False 0 False) (\<lambda>hand.
     bindE
       (if name = ''Motte'' then
          bindE (mapE (\<lambda>v. Die_init v False False) [1, 2, 2]) (set_dice hand)
        else if str_contains name ''Schock-out'' then
          bindE (mapE (\<lambda>v. Die_init v False False) [1, 1, 1]) (set_dice hand)
        else if str_contains name ''Schock-'' then
          bindE (index_at (split_chr CHR ''-'' name) 1) (\<lambda>part.
          bindE (py_int part) (\<lambda>val.
          bindE (mapE (\<lambda>v. Die_init v False False) [1, 1, val]) (set_dice hand)))
        else if str_contains name ''General-'' then
          bindE (index_at (split_chr CHR ''-'' name) 1) (\<lambda>part.
          bindE (py_int part) (\<lambda>val.
          bindE (mapE (\<lambda>v. Die_init v False False) [val, val, val]) (set_dice hand)))
        else if str_contains name ''Straight-'' then
          bindE (index_at (split_chr CHR ''-'' name) 1) (\<lambda>part.
          bindE (index_at (split_chr CHR '':'' part) 0) (\<lambda>p0.
          bindE (py_int p0) (\<lambda>val.
          bindE (mapE (\<lambda>v. Die_init v False False) [val, val + 1, val + 2])
            (set_dice hand))))
        else if str_contains name ''-'' then
          (let vals = concat (split_chr CHR ''-'' name) in
           if length vals \<noteq> 3 then Inl AssertionError
           else
             bindE (mapE (\<lambda>c. bindE (py_int [c]) (\<lambda>v. Die_init v False False)) vals) (\<lambda>ds.
             bindE (set_dice hand ds) (\<lambda>h1.
               Inr (if str_contains vals ''1'' then h1\<lparr>put_together := True\<rparr> else h1))))
        else Inl ValueError)
       update)"

text \<open>
  \<open>Hand.get_all_possible_hands(return_names=False)\<close>.
  \<open>combinations_with_replacement(range(1, 7), 3)\<close> yields the triples \<open>a \<le> b \<le> c\<close> in
  lexicographic order; each is sorted descending into three dice. The hand and its
  assembled copy are appended unless a hand of the same internal rank is already in the
  list, and the list is sorted at the end.
\<close>

definition combinations_with_replacement_3 :: "(int \<times> int \<times> int) list" where
  "combinations_with_replacement_3 =
     concat (map (\<lambda>a. concat (map (\<lambda>b. map (\<lambda>c. (a, b, c)) [b..6]) [a..6])) [1..6])"

fun any_rank_eq :: "Hand list \<Rightarrow> Hand \<Rightarrow> error + bool" where
  "any_rank_eq [] hand = Inr False"
| "any_rank_eq (h # hs) hand =
     bindE (Hand_hand_type h) (\<lambda>th. bindE (internal_rank th) (\<lambda>rh.
     bindE (Hand_hand_type hand) (\<lambda>t. bindE (internal_rank t) (\<lambda>r.
       if rh = r then Inr True else any_rank_eq hs hand))))"

definition append_if_new :: "Hand list \<Rightarrow> Hand \<Rightarrow> error + Hand list" where
  "append_if_new possible_hands hand =
     bindE (any_rank_eq possible_hands hand) (\<lambda>found.
       Inr (if found then possible_hands else possible_hands @ [hand]))"

definition add_combo :: "Hand list \<Rightarrow> int \<times> int \<times> int \<Rightarrow> error + Hand list" where
  "add_combo possible_hands combo =
     (case combo of (a, b, c) \<Rightarrow>
        bindE (mapE (\<lambda>v. Die_init v False False) (rev (sort [a, b, c]))) (\<lambda>ds.
        bindE (Hand_init [] False 0 False) (\<lambda>h0.
        bindE (set_dice h0 ds) (\<lambda>h1.
        bindE (update h1) (\<lambda>hand.
        bindE (Hand_copy hand) (\<lambda>c2.
        bindE (update (c2\<lparr>put_together := True\<rparr>)) (\<lambda>hand2.
        bindE (append_if_new possible_hands hand) (\<lambda>ph.
          append_if_new ph hand2))))))))"

definition get_all_possible_hands :: "error + Hand list" where
  "get_all_possible_hands =
     bindE (foldE add_combo [] combinations_with_replacement_3) (sort_by Hand_lt)"

text \<open>
  The band of internal ranks of a category, by its position in the order: used to state
  that the bands of different categories never overlap.
\<close>

definition pos_band :: "nat \<Rightarrow> int \<Rightarrow> int \<Rightarrow> bool" where
  "pos_band p v r =
     (if p = 0 then r = 1000 + v \<and> 221 \<le> v \<and> v \<le> 665
      else if p = 1 then r = 2000 + v \<and> 1 \<le> v \<and> v \<le> 4
      else if p = 2 then r = 3000 + v \<and> 2 \<le> v \<and> v \<le> 6
      else if p = 3 then r = 4000 + v \<and> 2 \<le> v \<and> v \<le> 6
      else r = 5000)"


section \<open>Turns and the default strategy (src/src/schocken/base.py)\<close>

text \<open>
  Randomness: \<open>rs\<close> is the sequence of outcomes of the random source and a position
  \<open>k\<close> counts how many have been used; every function that rolls returns the new
  position. Any sequence is possible, since \<open>randint_1_6\<close> reduces each outcome into
  1..6.
\<close>

type_synonym PlayerID = int

text \<open>
  \<open>BasePlayer.take_out_ones\<close>. \<open>dice_to_process\<close> holds the dice objects of the hand
  that are not (by \<open>==\<close>) in \<open>dice_processed\<close>; it is kept as the list \<open>idxs\<close> of their
  positions, because the loop changes those objects in place. \<open>die in dice_to_process\<close>
  holds for the die at position \<open>i\<close> when it is one of these objects or equals the
  present state of one.
\<close>

definition in_to_process :: "nat list \<Rightarrow> Die list \<Rightarrow> nat \<Rightarrow> bool" where
  "in_to_process idxs ds i = list_ex (\<lambda>j. j = i \<or> ds ! j = ds ! i) idxs"

definition take_out_step :: "nat list \<Rightarrow> Die list \<times> Die list \<Rightarrow> nat \<Rightarrow> Die list \<times> Die list" where
  "take_out_step idxs st i =
     (case st of (ds, processed) \<Rightarrow>
        if in_to_process idxs ds i \<and> die_value (ds ! i) = 1
        then (ds[i := make_a_one (ds ! i)], processed @ [make_a_one (ds ! i)])
        else (ds, processed))"

definition take_out_ones :: "Hand \<Rightarrow> Die list \<Rightarrow> error + (Hand \<times> Die list)" where
  "take_out_ones hand dice_processed =
     (if finalized hand then Inl ValueError
      else
        let idxs = filter (\<lambda>i. dice hand ! i \<notin> set dice_processed) [0..<length (dice hand)];
            res = foldl (take_out_step idxs) (dice hand, dice_processed)
                    [0..<length (dice hand)]
        in Inr (hand\<lparr>dice := fst res\<rparr>, snd res))"

text \<open>
  \<open>BasePlayer.convert_sixes\<close>. With three unprocessed sixes, all dice but the last are
  made ones. With two, the first die of the hand that is in \<open>dice_to_process\<close> and shows
  a six is made a one, and the loop stops. No die changes before that test, so
  \<open>dice_to_process\<close> is the list of the dice as they are.
\<close>

fun convert_first_six :: "Die list \<Rightarrow> Die list \<Rightarrow> Die list \<Rightarrow> Die list \<times> Die list" where
  "convert_first_six to_process [] processed = ([], processed)"
| "convert_first_six to_process (d # ds) processed =
     (if d \<in> set to_process \<and> die_value d = 6
      then (make_a_one d # ds, processed @ [make_a_one d])
      else (case convert_first_six to_process ds processed of
              (ds', processed') \<Rightarrow> (d # ds', processed')))"

definition convert_sixes :: "Hand \<Rightarrow> Die list \<Rightarrow> error + (Hand \<times> Die list)" where
  "convert_sixes hand dice_processed =
     (if finalized hand then Inl ValueError
      else if length (dice hand) \<noteq> 3 then Inl ValueError
      else
        let dice_to_process = filter (\<lambda>d. d \<notin> set dice_processed) (dice hand);
            sixes = length (filter (\<lambda>d. die_value d = 6) dice_to_process)
        in
        if sixes = 3 then
          Inr (hand\<lparr>dice := map make_a_one (butlast (dice hand)) @ [last (dice hand)]\<rparr>,
               dice_processed @ map make_a_one (butlast (dice hand)))
        else if sixes = 2 then
          (case convert_first_six dice_to_process (dice hand) dice_processed of
             (ds', processed') \<Rightarrow> Inr (hand\<lparr>dice := ds'\<rparr>, processed'))
        else Inr (hand, dice_processed))"

text \<open>
  The last loop of \<open>BasePlayer._throw_new_hand\<close>: every die of the hand that is not
  \<open>in dice_processed\<close> is thrown and appended to \<open>dice_processed\<close>. The test \<open>in\<close>
  compares dice with \<open>==\<close>, that is by their fields. The state is the dice, the
  processed dice, and the position in the random sequence.
\<close>

definition throw_step :: "(nat \<Rightarrow> nat) \<Rightarrow> Die list \<times> Die list \<times> nat \<Rightarrow> nat
    \<Rightarrow> Die list \<times> Die list \<times> nat" where
  "throw_step rs st i =
     (case st of (ds, processed, k) \<Rightarrow>
        if ds ! i \<notin> set processed
        then (ds[i := throw (rs k) (ds ! i)], processed @ [throw (rs k) (ds ! i)], Suc k)
        else (ds, processed, k))"

text \<open>
  \<open>BasePlayer._throw_new_hand\<close>. The second assertion compares the results of two
  in-place \<open>list.sort\<close> calls, both \<open>None\<close>: it always holds, and leaves the dice of the
  new hand sorted by descending value.
\<close>

definition throw_new_hand ::
    "Hand \<Rightarrow> bool \<Rightarrow> bool \<Rightarrow> bool \<Rightarrow> (nat \<Rightarrow> nat) \<Rightarrow> nat \<Rightarrow> error + (Hand \<times> nat)" where
  "throw_new_hand current_hand should_take_out_ones should_convert_sixes should_throw_all rs k =
     bindE (Hand_copy current_hand) (\<lambda>new_hand.
     bindE
       (if \<not> should_throw_all then
          bindE (if should_take_out_ones then take_out_ones new_hand []
                 else Inr (new_hand, []))
            (\<lambda>st. if should_convert_sixes then convert_sixes (fst st) (snd st) else Inr st)
        else Inr (new_hand, []))
       (\<lambda>st.
          let res = foldl (throw_step rs) (dice (fst st), snd st, k)
                      [0..<length (dice (fst st))]
          in if length (fst res) \<noteq> 3 then Inl AssertionError
             else Inr (Hand_sort ((fst st)\<lparr>dice := fst res\<rparr>), snd (snd res))))"

text \<open>
  The strategy of a player, \<open>eval_hand_and_throw\<close>, is a parameter: from the copy of the
  current hand, the throw limit and the random source it returns whether to end the
  turn, the new hand, and the new position in the random sequence (or raises). The
  game object that \<open>play_turn\<close> also hands to it as a keyword argument is left out: the
  strategies of the repository ignore it.
\<close>

type_synonym strategy = "Hand \<Rightarrow> nat \<Rightarrow> (nat \<Rightarrow> nat) \<Rightarrow> nat \<Rightarrow> error + (bool \<times> Hand \<times> nat)"

text \<open>\<open>custom_player.Player\<close>: never ends the turn, throws with the default options.\<close>

definition Player_strategy :: strategy where
  "Player_strategy current_hand max_throws rs k =
     bindE (throw_new_hand current_hand True True False rs k)
       (\<lambda>r. Inr (False, fst r, snd r))"

text \<open>\<open>DummyPlayer\<close> of the tests: always ends the turn.\<close>

definition DummyPlayer_strategy :: strategy where
  "DummyPlayer_strategy current_hand max_throws rs k = Inr (True, current_hand, k)"

record Turn =
  turn_index :: nat
  player_id :: PlayerID
  final_hand :: Hand
  num_throws :: nat

text \<open>
  The loop of \<open>BasePlayer.play_turn\<close>: while \<open>throw_count < max_throws\<close>, the strategy
  sees a copy of the hand; unless it ends the turn, its hand replaces the player's hand
  and is updated.
\<close>

function throw_loop ::
    "strategy \<Rightarrow> nat \<Rightarrow> (nat \<Rightarrow> nat) \<Rightarrow> Hand \<Rightarrow> nat \<Rightarrow> nat \<Rightarrow> error + (Hand \<times> nat \<times> nat)" where
  "throw_loop strat max_throws rs hand throw_count k =
     (if throw_count < max_throws then
        (case Hand_copy hand of
           Inl e \<Rightarrow> Inl e
         | Inr current_hand \<Rightarrow>
             (case strat current_hand max_throws rs k of
                Inl e \<Rightarrow> Inl e
              | Inr (end_turn, new_hand, k') \<Rightarrow>
                  if end_turn then Inr (hand, throw_count, k')
                  else (case update new_hand of
                          Inl e \<Rightarrow> Inl e
                        | Inr hand' \<Rightarrow>
                            throw_loop strat max_throws rs hand' (Suc throw_count) k')))
      else Inr (hand, throw_count, k))"
  by pat_completeness auto
termination
  by (relation "measure (\<lambda>(strat, max_throws, rs, hand, throw_count, k). max_throws - throw_count)")
     auto

declare throw_loop.simps [simp del]

text \<open>
  \<open>BasePlayer.play_turn\<close> of the player \<open>pid\<close> whose hand is \<open>hand\<close>: the new hand of
  the player and the \<open>Turn\<close> with a copy of it are returned.
\<close>

definition play_turn ::
    "strategy \<Rightarrow> (nat \<Rightarrow> nat) \<Rightarrow> nat \<Rightarrow> nat \<Rightarrow> PlayerID \<Rightarrow> Hand \<Rightarrow> nat
      \<Rightarrow> error + (Turn \<times> Hand \<times> nat)" where
  "play_turn strat rs max_throws turn_ix pid hand k =
     bindE (initialize (rs k) (rs (k + 1)) (rs (k + 2)) hand) (\<lambda>h1.
     bindE (throw_loop strat max_throws rs h1 1 (k + 3)) (\<lambda>r.
     bindE (finalize (fst r)) (\<lambda>h3.
     bindE (Hand_copy h3) (\<lambda>fh.
       Inr (\<lparr>turn_index = turn_ix, player_id = pid, final_hand = fh,
              num_throws = fst (snd r)\<rparr>, h3, snd (snd r))))))"

section \<open>The game (src/src/schocken/game.py)\<close>

text \<open>
  A player object is known by its \<open>PlayerID\<close>; \<open>add_player\<close> gives every player of the
  game a different one. The records returned by the functions below are complete, so
  the fields that the dataclasses declare optional and fill in before returning
  (\<open>worst_turn\<close>, \<open>best_turn\<close>, \<open>lost_by\<close> of a mini-round, \<open>player_id\<close> of a turn)
  hold their values directly. \<open>lost_by\<close> of a half and of a round stay optional.
\<close>

record MiniRound =
  mini_round_players :: "PlayerID list"
  mini_round_index :: nat
  turns :: "Turn list"
  worst_turn :: Turn
  best_turn :: Turn
  given_chips :: int
  mr_lost_by :: PlayerID

text \<open>\<open>ChipManager\<close>: the dict of balances keeps its insertion order.\<close>

record ChipManager =
  chips_in_stock :: int
  chip_balances :: "(PlayerID \<times> int) list"

record Half =
  halves_index :: nat
  active_players :: "PlayerID list"
  mini_rounds :: "MiniRound list"
  half_lost_by :: "PlayerID option"
  stock_chips_gone :: bool
  chip_manager :: ChipManager

record Round =
  round_index :: nat
  halves :: "Half list"
  round_lost_by :: "PlayerID option"

text \<open>
  \<open>Game\<close>: the players in the order they were added, the hand each player object
  holds between turns, the last mini-round and the rounds played. The strategies of the
  players are the parameter \<open>strat\<close> of the functions below.
\<close>

record Game =
  players :: "PlayerID list"
  hands :: "PlayerID \<Rightarrow> Hand"
  last_mr :: "MiniRound option"
  rounds :: "Round list"

text \<open>
  The order of \<open>Turn\<close>, a dataclass with \<open>order=True\<close> that compares the final hand
  only: the one-element tuples of the hands are compared, so \<open><\<close> is false when the
  hands are \<open>==\<close> and is \<open><\<close> of the hands otherwise.
\<close>

definition Turn_lt :: "Turn \<Rightarrow> Turn \<Rightarrow> error + bool" where
  "Turn_lt a b =
     bindE (Hand_eq (final_hand a) (final_hand b)) (\<lambda>same.
       if same then Inr False else Hand_lt (final_hand a) (final_hand b))"

text \<open>
  The loop of \<open>play_mini_round\<close> over \<open>enumerate(mini_round_players)\<close>: each player
  plays a turn, the throws of the first player become the limit of the others, and the
  hand of the turn gets the position of the player as its turn index.
\<close>

fun play_turns ::
    "(PlayerID \<Rightarrow> strategy) \<Rightarrow> (nat \<Rightarrow> nat) \<Rightarrow> PlayerID list \<Rightarrow> nat \<Rightarrow> nat
      \<Rightarrow> (PlayerID \<Rightarrow> Hand) \<Rightarrow> nat \<Rightarrow> error + (Turn list \<times> (PlayerID \<Rightarrow> Hand) \<times> nat)" where
  "play_turns strat rs [] i max_throws hs k = Inr ([], hs, k)"
| "play_turns strat rs (p # ps) i max_throws hs k =
     bindE (play_turn (strat p) rs max_throws i p (hs p) k) (\<lambda>r.
       let turn = fst r;
           max_throws' = (if i = 0 then num_throws turn else max_throws);
           turn' = turn\<lparr>final_hand := (final_hand turn)\<lparr>players_turn_ind := int i\<rparr>\<rparr>
       in bindE (play_turns strat rs ps (Suc i) max_throws' (hs(p := fst (snd r)))
                   (snd (snd r)))
            (\<lambda>r2. Inr (turn' # fst r2, snd r2)))"

text \<open>\<open>Game.play_mini_round\<close>. An empty (or missing) player list stands for all players.\<close>

definition play_mini_round ::
    "(PlayerID \<Rightarrow> strategy) \<Rightarrow> (nat \<Rightarrow> nat) \<Rightarrow> Game \<Rightarrow> PlayerID list \<Rightarrow> nat \<Rightarrow> nat
      \<Rightarrow> error + (MiniRound \<times> Game \<times> nat)" where
  "play_mini_round strat rs g mr_players mr_index k =
     (let ps = (if mr_players = [] then players g else mr_players) in
      if length ps < 2 \<or> length ps > 50 then Inl ValueError
      else
        bindE (play_turns strat rs ps 0 3 (hands g) k) (\<lambda>r.
        bindE (sort_by Turn_lt (fst r)) (\<lambda>sorted_turns.
        bindE (index_at sorted_turns 0) (\<lambda>worst.
        bindE (index_at sorted_turns (length sorted_turns - 1)) (\<lambda>best.
        bindE (get_chip_count (final_hand best)) (\<lambda>chip_count.
          Inr (\<lparr>mini_round_players = ps, mini_round_index = mr_index,
                 turns = sorted_turns, worst_turn = worst, best_turn = best,
                 given_chips = chip_count, mr_lost_by = player_id worst\<rparr>,
               g\<lparr>hands := fst (snd r)\<rparr>, snd (snd r))))))))"

text \<open>The helper \<open>_change_starting_player\<close> of \<open>play_half\<close>.\<close>

definition change_starting_player ::
    "Game \<Rightarrow> PlayerID list \<Rightarrow> PlayerID \<Rightarrow> error + PlayerID list" where
  "change_starting_player g active pid_of_starter =
     (let active_players_og_order = filter (\<lambda>p. p \<in> set active) (players g) in
      case position_in pid_of_starter active_players_og_order of
        None \<Rightarrow> Inl ValueError
      | Some n \<Rightarrow> Inr (drop n active_players_og_order @ take n active_players_og_order))"

text \<open>Reading a dict entry raises KeyError for a missing key.\<close>

definition dict_get :: "('k \<times> 'v) list \<Rightarrow> 'k \<Rightarrow> error + 'v" where
  "dict_get d key = (case map_of d key of None \<Rightarrow> Inl KeyError | Some v \<Rightarrow> Inr v)"

text \<open>
  The chip transfer of one mini-round in \<open>play_half\<close>: from the stock while it lasts,
  capped to what is left; afterwards from the balance of the player of the best turn,
  capped to that balance; then to the loser of the mini-round. The result is the
  amount given, the flag \<open>stock_chips_gone\<close> and the chip manager.
\<close>

definition distribute_chips ::
    "MiniRound \<Rightarrow> bool \<Rightarrow> ChipManager \<Rightarrow> error + (int \<times> bool \<times> ChipManager)" where
  "distribute_chips mr gone cm =
     bindE
       (if \<not> gone then
          (let stock = chips_in_stock cm - given_chips mr in
           if stock \<le> 0
           then Inr (given_chips mr - abs stock, True, cm\<lparr>chips_in_stock := 0\<rparr>)
           else Inr (given_chips mr, False, cm\<lparr>chips_in_stock := stock\<rparr>))
        else
          bindE (dict_get (chip_balances cm) (player_id (best_turn mr))) (\<lambda>b.
            let given = min (given_chips mr) b in
            Inr (given, True,
                 cm\<lparr>chip_balances :=
                      AList.update (player_id (best_turn mr)) (b - given) (chip_balances cm)\<rparr>)))
       (\<lambda>r.
          bindE (dict_get (chip_balances (snd (snd r))) (mr_lost_by mr)) (\<lambda>l.
            Inr (fst r, fst (snd r),
                 (snd (snd r))\<lparr>chip_balances :=
                      AList.update (mr_lost_by mr) (l + fst r)
                        (chip_balances (snd (snd r)))\<rparr>)))"

text \<open>
  The loop that removes the players without chips. It runs over
  \<open>mr.mini_round_players\<close>, which is the very list \<open>half.active_players\<close> it removes
  from (the mini-round was given that list), so the position \<open>i\<close> of the iteration
  moves on over the shortened list.
\<close>

function remove_out_players ::
    "(PlayerID \<times> int) list \<Rightarrow> nat \<Rightarrow> PlayerID list \<Rightarrow> error + PlayerID list" where
  "remove_out_players balances i ps =
     (if i < length ps then
        (case dict_get balances (ps ! i) of
           Inl e \<Rightarrow> Inl e
         | Inr c \<Rightarrow>
             if c = 0 then remove_out_players balances (Suc i) (remove1 (ps ! i) ps)
             else remove_out_players balances (Suc i) ps)
      else Inr ps)"
  by pat_completeness auto
termination
  by (relation "measure (\<lambda>(balances, i, ps). length ps - i)") (auto simp add: length_remove1)

declare remove_out_players.simps [simp del]

text \<open>
  The same loop when the mini-round was given an empty list and played with a copy of
  all players: the list iterated is then not the list removed from, and \<open>list.remove\<close>
  of a player who is not in it raises ValueError.
\<close>

fun remove_out_players_of_copy ::
    "(PlayerID \<times> int) list \<Rightarrow> PlayerID list \<Rightarrow> PlayerID list \<Rightarrow> error + PlayerID list" where
  "remove_out_players_of_copy balances [] active = Inr active"
| "remove_out_players_of_copy balances (p # ps) active =
     (case dict_get balances p of
        Inl e \<Rightarrow> Inl e
      | Inr c \<Rightarrow>
          if c = 0 then
            (if p \<in> set active
             then remove_out_players_of_copy balances ps (remove1 p active)
             else Inl ValueError)
          else remove_out_players_of_copy balances ps active)"

text \<open>The loop over the balances that finds the loser of the half.\<close>

definition check_lost :: "(PlayerID \<times> int) list \<Rightarrow> PlayerID option \<Rightarrow> error + PlayerID option" where
  "check_lost balances lost =
     foldE (\<lambda>l entry.
              if snd entry = 13 then Inr (Some (fst entry))
              else if snd entry > 13 \<or> snd entry < 0 then Inl ValueError
              else Inr l)
       lost balances"

text \<open>
  One pass of the \<open>while\<close> loop of \<open>play_half\<close>. In the Schock-out branch the loser of
  the half is set before \<open>break\<close>, so the loop condition ends the loop there as well.
  The printing under \<open>print_info\<close> (off by default) is left out.
\<close>

definition play_half_iter ::
    "(PlayerID \<Rightarrow> strategy) \<Rightarrow> (nat \<Rightarrow> nat) \<Rightarrow> Game \<Rightarrow> Half \<Rightarrow> nat \<Rightarrow> nat
      \<Rightarrow> error + (Game \<times> Half \<times> nat)" where
  "play_half_iter strat rs g half mr_index k =
     bindE
       (case last_mr g of
          None \<Rightarrow> Inr (active_players half)
        | Some lm \<Rightarrow>
            if halves_index half \<noteq> 2
            then change_starting_player g (active_players half) (mr_lost_by lm)
            else Inr (active_players half))
       (\<lambda>active.
     bindE (play_mini_round strat rs g active mr_index k) (\<lambda>r.
     bindE (Hand_hand_type (final_hand (best_turn (fst r)))) (\<lambda>best_type.
     bindE (HandType_init ''Schock-out'' 0) (\<lambda>schock_out.
     bindE (HandType_eq best_type schock_out) (\<lambda>is_schock_out.
       if is_schock_out then
         Inr ((fst (snd r))\<lparr>last_mr := Some (fst r)\<rparr>,
              half\<lparr>active_players := active,
                   half_lost_by := Some (mr_lost_by (fst r)),
                   mini_rounds := mini_rounds half @ [fst r]\<rparr>,
              snd (snd r))
       else
         bindE (distribute_chips (fst r) (stock_chips_gone half) (chip_manager half)) (\<lambda>d.
         bindE
           (if fst (snd d) then
              (if active \<noteq> []
               then remove_out_players (chip_balances (snd (snd d))) 0 active
               else remove_out_players_of_copy (chip_balances (snd (snd d)))
                      (mini_round_players (fst r)) active)
            else Inr active)
           (\<lambda>active'.
         bindE (check_lost (chip_balances (snd (snd d))) (half_lost_by half)) (\<lambda>lost.
           let mr = (fst r)\<lparr>given_chips := fst d,
                       mini_round_players :=
                         (if active \<noteq> [] then active' else mini_round_players (fst r))\<rparr>
           in Inr ((fst (snd r))\<lparr>last_mr := Some mr\<rparr>,
                   half\<lparr>active_players := active',
                        stock_chips_gone := fst (snd d),
                        chip_manager := snd (snd d),
                        mini_rounds := mini_rounds half @ [mr],
                        half_lost_by := lost\<rparr>,
                   snd (snd r))))))))))"

text \<open>The \<open>while\<close> loop of \<open>play_half\<close>: at most 1000 mini-rounds.\<close>

function play_half_loop ::
    "(PlayerID \<Rightarrow> strategy) \<Rightarrow> (nat \<Rightarrow> nat) \<Rightarrow> Game \<Rightarrow> Half \<Rightarrow> nat \<Rightarrow> nat
      \<Rightarrow> error + (Game \<times> Half \<times> nat)" where
  "play_half_loop strat rs g half mr_index k =
     (if half_lost_by half = None \<and> mr_index < 1000 then
        (case play_half_iter strat rs g half mr_index k of
           Inl e \<Rightarrow> Inl e
         | Inr (g', half', k') \<Rightarrow> play_half_loop strat rs g' half' (Suc mr_index) k')
      else Inr (g, half, k))"
  by pat_completeness auto
termination
  by (relation "measure (\<lambda>(strat, rs, g, half, mr_index, k). 1000 - mr_index)") auto

declare play_half_loop.simps [simp del]

text \<open>
  The start of \<open>play_half\<close>: the active players and the empty half with 13 chips in
  stock and a balance of 0 for every active player.
\<close>

definition half_setup :: "Game \<Rightarrow> nat \<Rightarrow> PlayerID list option \<Rightarrow> error + Half" where
  "half_setup g halves_ix players_arg =
     bindE
       (if players_arg \<noteq> None \<and> players_arg \<noteq> Some [] then
          (if halves_ix \<noteq> 2 then Inl WarningRaised else Inr (the players_arg))
        else if halves_ix \<noteq> 2 then Inr (players g)
        else Inl ValueError)
       (\<lambda>active.
          Inr \<lparr>halves_index = halves_ix, active_players = active, mini_rounds = [],
               half_lost_by = None, stock_chips_gone = False,
               chip_manager =
                 \<lparr>chips_in_stock = 13,
                  chip_balances = foldl (\<lambda>d p. AList.update p 0 d) [] active\<rparr>\<rparr>)"

text \<open>\<open>Game.play_half\<close>.\<close>

definition play_half ::
    "(PlayerID \<Rightarrow> strategy) \<Rightarrow> (nat \<Rightarrow> nat) \<Rightarrow> Game \<Rightarrow> nat \<Rightarrow> PlayerID list option \<Rightarrow> nat
      \<Rightarrow> error + (Half \<times> Game \<times> nat)" where
  "play_half strat rs g halves_ix players_arg k =
     bindE (half_setup g halves_ix players_arg) (\<lambda>half.
     bindE (play_half_loop strat rs g half 0 k) (\<lambda>r.
       Inr (fst (snd r), fst r, snd (snd r))))"

text \<open>
  \<open>next(p for p in self.players if p.id == pid)\<close> in \<open>play_round\<close>: StopIteration when
  no player has that id.
\<close>

definition find_player :: "Game \<Rightarrow> PlayerID option \<Rightarrow> error + PlayerID" where
  "find_player g pid =
     (case pid of
        None \<Rightarrow> Inl StopIteration
      | Some p \<Rightarrow> if p \<in> set (players g) then Inr p else Inl StopIteration)"

text \<open>\<open>Game.play_round\<close>.\<close>

definition play_round ::
    "(PlayerID \<Rightarrow> strategy) \<Rightarrow> (nat \<Rightarrow> nat) \<Rightarrow> Game \<Rightarrow> nat \<Rightarrow> nat
      \<Rightarrow> error + (Round \<times> Game \<times> nat)" where
  "play_round strat rs g round_ix k =
     bindE (play_half strat rs g 0 None k) (\<lambda>r0.
     bindE (play_half strat rs (fst (snd r0)) 1 None (snd (snd r0))) (\<lambda>r1.
       let halves_lost_by = [half_lost_by (fst r0), half_lost_by (fst r1)];
           g2 = fst (snd r1)
       in
       if length (remdups halves_lost_by) = 1 then
         (let r = \<lparr>round_index = round_ix, halves = [fst r0, fst r1],
                   round_lost_by = halves_lost_by ! 0\<rparr>
          in Inr (r, g2\<lparr>rounds := rounds g2 @ [r]\<rparr>, snd (snd r1)))
       else if length (remdups halves_lost_by) = 2 then
         bindE (mapE (find_player g2) halves_lost_by) (\<lambda>final_players.
         bindE (play_half strat rs g2 2 (Some final_players) (snd (snd r1))) (\<lambda>r2.
           let r = \<lparr>round_index = round_ix, halves = [fst r0, fst r1, fst r2],
                     round_lost_by = half_lost_by (fst r2)\<rparr>
           in Inr (r, (fst (snd r2))\<lparr>rounds := rounds (fst (snd r2)) @ [r]\<rparr>,
                   snd (snd r2))))
       else Inl ValueError))"

text \<open>
  The state of the loop of \<open>play_half\<close> at the mini-round boundaries: \<open>half_after n\<close> is
  the state after \<open>n\<close> passes of the loop, or the final state if the loop has ended
  before.
\<close>

fun half_after ::
    "(PlayerID \<Rightarrow> strategy) \<Rightarrow> (nat \<Rightarrow> nat) \<Rightarrow> nat \<Rightarrow> Game \<Rightarrow> Half \<Rightarrow> nat \<Rightarrow> nat
      \<Rightarrow> error + (Game \<times> Half \<times> nat)" where
  "half_after strat rs 0 g half mr_index k = Inr (g, half, k)"
| "half_after strat rs (Suc n) g half mr_index k =
     (if half_lost_by half = None \<and> mr_index < 1000 then
        (case play_half_iter strat rs g half mr_index k of
           Inl e \<Rightarrow> Inl e
         | Inr (g', half', k') \<Rightarrow> half_after strat rs n g' half' (Suc mr_index) k')
      else Inr (g, half, k))"

subsection \<open>Specification-side definitions\<close>

text \<open>
  From the specification, not from the code: the category of three die values \<open>a\<close>,
  \<open>b\<close>, \<open>c\<close> of a hand whose assembled flag is \<open>assembled\<close>, in the precedence the
  specification gives. \<open>hi\<close>, \<open>mid\<close>, \<open>lo\<close> are the values sorted descending.
\<close>

definition spec_category :: "int \<Rightarrow> int \<Rightarrow> int \<Rightarrow> bool \<Rightarrow> HandType" where
  "spec_category a b c assembled =
     (let hi = max a (max b c); lo = min a (min b c); mid = a + b + c - hi - lo in
      if a = 1 \<and> b = 1 \<and> c = 1 then \<lparr>hand_type = ''Schock-out'', hand_type_value = 0\<rparr>
      else if lo = 1 \<and> mid = 1 then \<lparr>hand_type = ''Schock'', hand_type_value = hi\<rparr>
      else if a = b \<and> b = c then \<lparr>hand_type = ''General'', hand_type_value = a\<rparr>
      else if (lo, mid, hi) = (1, 2, 3) \<and> \<not> assembled
        then \<lparr>hand_type = ''Straight'', hand_type_value = 1\<rparr>
      else if (lo, mid, hi) = (2, 3, 4) then \<lparr>hand_type = ''Straight'', hand_type_value = 2\<rparr>
      else if (lo, mid, hi) = (3, 4, 5) then \<lparr>hand_type = ''Straight'', hand_type_value = 3\<rparr>
      else if (lo, mid, hi) = (4, 5, 6) then \<lparr>hand_type = ''Straight'', hand_type_value = 4\<rparr>
      else \<lparr>hand_type = ''High Dice'', hand_type_value = 100 * hi + 10 * mid + lo\<rparr>)"

text \<open>
  The round trip through the display name: \<open>from_name (to_name h)\<close> succeeds and yields a
  hand with the hand type of \<open>h\<close>, equal as a value and under \<open>HandType.__eq__\<close>.
\<close>

definition roundtrip_ok :: "Hand \<Rightarrow> bool" where
  "roundtrip_ok h =
     (case to_name h of
        Inl _ \<Rightarrow> False
      | Inr n \<Rightarrow>
          (case from_name n of
             Inl _ \<Rightarrow> False
           | Inr h' \<Rightarrow>
               (case Hand_hand_type h of
                  Inl _ \<Rightarrow> False
                | Inr t \<Rightarrow>
                    (case Hand_hand_type h' of
                       Inl _ \<Rightarrow> False
                     | Inr t' \<Rightarrow> t' = t \<and> HandType_eq t' t = Inr True))))"

text \<open>Named hands used in the examples below.\<close>

definition plain_die :: "int \<Rightarrow> Die" where
  "plain_die v = \<lparr>die_value = v, visible = False, taken_out = False\<rparr>"

definition schock2_hand :: Hand where
  "schock2_hand =
     \<lparr>dice = [plain_die 2, plain_die 1, plain_die 1],
      cached_hand_type = Some \<lparr>hand_type = ''Schock'', hand_type_value = 2\<rparr>,
      put_together = False, players_turn_ind = 0, finalized = False\<rparr>"


definition empty_hand :: Hand where
  "empty_hand =
     \<lparr>dice = [], cached_hand_type = None, put_together = False,
      players_turn_ind = 0, finalized = False\<rparr>"

definition straight3_hand :: Hand where
  "straight3_hand =
     \<lparr>dice = [plain_die 5, plain_die 4, plain_die 3],
      cached_hand_type = Some \<lparr>hand_type = ''Straight'', hand_type_value = 3\<rparr>,
      put_together = False, players_turn_ind = 0, finalized = False\<rparr>"

text \<open>A random sequence whose first outcome rolls a four and whose others roll a one.\<close>

definition four_then_ones :: "nat \<Rightarrow> nat" where
  "four_then_ones n = (if n = 0 then 3 else 0)"

text \<open>A random sequence that always rolls a two.\<close>

definition always_two :: "nat \<Rightarrow> nat" where
  "always_two n = 1"

definition general2_final_hand :: Hand where
  "general2_final_hand =
     \<lparr>dice = [plain_die 2, plain_die 2, plain_die 2],
      cached_hand_type = Some \<lparr>hand_type = ''General'', hand_type_value = 2\<rparr>,
      put_together = False, players_turn_ind = 0, finalized = True\<rparr>"

text \<open>A hand whose cached hand type is set and is one the constructor accepts.\<close>

definition typed_hand :: "Hand \<Rightarrow> bool" where
  "typed_hand h = (\<exists>ht. cached_hand_type h = Some ht \<and> valid_HandType ht)"

text \<open>
  The order that the comparison of turns decides when the hand types are set: by
  internal rank, and among equal ranks the higher turn index is the lower turn.
  \<open>turn_rank\<close> reads the rank (0 where the program would raise).
\<close>

definition turn_rank :: "Turn \<Rightarrow> int" where
  "turn_rank t =
     (case Hand_hand_type (final_hand t) of
        Inl _ \<Rightarrow> 0
      | Inr ht \<Rightarrow> (case internal_rank ht of Inl _ \<Rightarrow> 0 | Inr r \<Rightarrow> r))"

definition turn_le :: "Turn \<Rightarrow> Turn \<Rightarrow> bool" where
  "turn_le a b =
     (turn_rank a < turn_rank b
      \<or> (turn_rank a = turn_rank b
          \<and> players_turn_ind (final_hand b) \<le> players_turn_ind (final_hand a)))"

text \<open>
  A game of two players, 0 and 1, who both end their turn at once (the test player),
  and the half it starts. With the random sequence \<open>sixes_then_ones\<close> player 0 rolls
  three sixes and player 1 three ones.
\<close>

definition two_player_game :: Game where
  "two_player_game =
     \<lparr>players = [0, 1], hands = (\<lambda>p. empty_hand), last_mr = None, rounds = []\<rparr>"

definition dummy_players :: "PlayerID \<Rightarrow> strategy" where
  "dummy_players p = DummyPlayer_strategy"

definition sixes_then_ones :: "nat \<Rightarrow> nat" where
  "sixes_then_ones n = (if n < 3 then 5 else 0)"

definition two_player_half :: Half where
  "two_player_half =
     \<lparr>halves_index = 0, active_players = [0, 1], mini_rounds = [],
      half_lost_by = None, stock_chips_gone = False,
      chip_manager = \<lparr>chips_in_stock = 13, chip_balances = [(0, 0), (1, 0)]\<rparr>\<rparr>"

text \<open>
  Chip conservation, as the specification states it, for the flag \<open>stock_chips_gone\<close>
  and the chip manager of a half: stock and balances add up to 13, neither the stock nor
  a balance is negative, and the stock is positive exactly until it is marked gone. The
  balances are a dict, so their keys are distinct.
\<close>

definition chip_state_ok :: "bool \<Rightarrow> ChipManager \<Rightarrow> bool" where
  "chip_state_ok gone cm =
     (chips_in_stock cm + sum_list (map snd (chip_balances cm)) = 13
      \<and> list_all (\<lambda>entry. 0 \<le> snd entry) (chip_balances cm)
      \<and> distinct (map fst (chip_balances cm))
      \<and> (if gone then chips_in_stock cm = 0 else 0 < chips_in_stock cm))"

definition chip_inv :: "Half \<Rightarrow> bool" where
  "chip_inv half = chip_state_ok (stock_chips_gone half) (chip_manager half)"

section \<open>Properties\<close>

subsection \<open>Sequencing of computations that may raise\<close>

lemma bindE_Inr_iff: "bindE m f = Inr y \<longleftrightarrow> (\<exists>x. m = Inr x \<and> f x = Inr y)"
  by (cases m) (simp_all add: bindE_def)

lemma bindE_simps [simp]: "bindE (Inr x) f = f x" "bindE (Inl e) f = Inl e"
  by (simp_all add: bindE_def)

subsection \<open>Hand types and their order\<close>

lemma five_cases:
  "t = a \<or> t = b \<or> t = c \<or> t = d \<or> t = e \<or> t \<notin> set [a, b, c, d, e]"
  by auto

lemma HandType_init_ok:
  "HandType_init t v = Inr ht \<longleftrightarrow>
     ht = \<lparr>hand_type = t, hand_type_value = v\<rparr> \<and>
     (t = ''Schock-out''
      \<or> (t = ''Schock'' \<and> 2 \<le> v \<and> v \<le> 6)
      \<or> (t = ''General'' \<and> 2 \<le> v \<and> v \<le> 6)
      \<or> (t = ''Straight'' \<and> 1 \<le> v \<and> v \<le> 4)
      \<or> (t = ''High Dice'' \<and> 221 \<le> v \<and> v \<le> 665))"
proof -
  consider "t = ''Schock-out''" | "t = ''Schock''" | "t = ''General''" | "t = ''Straight''"
    | "t = ''High Dice''"
    | "t \<notin> set [''Schock-out'', ''Schock'', ''General'', ''Straight'', ''High Dice'']"
    using five_cases [of t "''Schock-out''" "''Schock''" "''General''" "''Straight''" "''High Dice''"]
    by (elim disjE) 
  then show ?thesis
  proof cases
    case 1 then show ?thesis by (auto simp add: HandType_init_def)
  next
    case 2 then show ?thesis by (auto simp add: HandType_init_def)
  next
    case 3 then show ?thesis by (auto simp add: HandType_init_def)
  next
    case 4 then show ?thesis by (auto simp add: HandType_init_def)
  next
    case 5 then show ?thesis by (auto simp add: HandType_init_def)
  next
    case 6 then show ?thesis by (simp add: HandType_init_def)
  qed
qed

lemma valid_HandType_cases:
  assumes "valid_HandType a"
  shows "hand_type a = ''Schock-out''
       \<or> (hand_type a = ''Schock'' \<and> 2 \<le> hand_type_value a \<and> hand_type_value a \<le> 6)
       \<or> (hand_type a = ''General'' \<and> 2 \<le> hand_type_value a \<and> hand_type_value a \<le> 6)
       \<or> (hand_type a = ''Straight'' \<and> 1 \<le> hand_type_value a \<and> hand_type_value a \<le> 4)
       \<or> (hand_type a = ''High Dice'' \<and> 221 \<le> hand_type_value a \<and> hand_type_value a \<le> 665)"
proof -
  from assms have "HandType_init (hand_type a) (hand_type_value a) = Inr a"
    by (simp only: valid_HandType_def)
  then show ?thesis by (simp only: HandType_init_ok)
qed


lemma valid_rank:
  assumes "valid_HandType a"
  shows "\<exists>r. internal_rank a = Inr r
           \<and> pos_band (category_position (hand_type a)) (hand_type_value a) r"
  using valid_HandType_cases [OF assms]
  by (elim disjE conjE)
     (simp_all add: internal_rank_def category_position_def pos_band_def)

lemma valid_position:
  assumes "valid_HandType a"
  shows "(category_position (hand_type a) = 0) = (hand_type a = ''High Dice'')"
    and "(category_position (hand_type a) = 1) = (hand_type a = ''Straight'')"
    and "(category_position (hand_type a) = 2) = (hand_type a = ''General'')"
    and "(category_position (hand_type a) = 3) = (hand_type a = ''Schock'')"
    and "(category_position (hand_type a) = 4) = (hand_type a = ''Schock-out'')"
    and "category_position (hand_type a) \<le> 4"
  using valid_HandType_cases [OF assms]
  by (elim disjE conjE; simp add: category_position_def)+

lemma position_inject:
  assumes "valid_HandType a" "valid_HandType b"
  shows "(category_position (hand_type a) = category_position (hand_type b))
           = (hand_type a = hand_type b)"
proof
  assume eq: "category_position (hand_type a) = category_position (hand_type b)"
  have le: "category_position (hand_type a) \<le> 4" by (rule valid_position(6) [OF assms(1)])
  then consider "category_position (hand_type a) = 0" | "category_position (hand_type a) = 1"
    | "category_position (hand_type a) = 2" | "category_position (hand_type a) = 3"
    | "category_position (hand_type a) = 4" by linarith
  then show "hand_type a = hand_type b"
  proof cases
    case 1
    then have "hand_type a = ''High Dice''" "hand_type b = ''High Dice''"
      using eq valid_position(1) [OF assms(1)] valid_position(1) [OF assms(2)] by simp_all
    then show ?thesis by simp
  next
    case 2
    then have "hand_type a = ''Straight''" "hand_type b = ''Straight''"
      using eq valid_position(2) [OF assms(1)] valid_position(2) [OF assms(2)] by simp_all
    then show ?thesis by simp
  next
    case 3
    then have "hand_type a = ''General''" "hand_type b = ''General''"
      using eq valid_position(3) [OF assms(1)] valid_position(3) [OF assms(2)] by simp_all
    then show ?thesis by simp
  next
    case 4
    then have "hand_type a = ''Schock''" "hand_type b = ''Schock''"
      using eq valid_position(4) [OF assms(1)] valid_position(4) [OF assms(2)] by simp_all
    then show ?thesis by simp
  next
    case 5
    then have "hand_type a = ''Schock-out''" "hand_type b = ''Schock-out''"
      using eq valid_position(5) [OF assms(1)] valid_position(5) [OF assms(2)] by simp_all
    then show ?thesis by simp
  qed
next
  assume "hand_type a = hand_type b"
  then show "category_position (hand_type a) = category_position (hand_type b)"
    by (rule arg_cong)
qed

lemma lt_by_rank:
  "internal_rank a = Inr ra \<Longrightarrow> internal_rank b = Inr rb \<Longrightarrow>
   HandType_lt a b = Inr (ra < rb) \<and> HandType_eq a b = Inr (ra = rb)"
  by (simp add: HandType_lt_def HandType_eq_def bindE_def)

lemma band_position:
  "pos_band p v r \<Longrightarrow> pos_band q w s \<Longrightarrow> p < q \<Longrightarrow> q \<le> 4 \<Longrightarrow> r < s"
  unfolding pos_band_def by (auto split: if_splits)

lemma band_same:
  "pos_band p v r \<Longrightarrow> pos_band p w s \<Longrightarrow> p < 4 \<Longrightarrow> (r < s) = (v < w)"
  unfolding pos_band_def by (auto split: if_splits)

lemma band_equal_rank:
  "pos_band p v r \<Longrightarrow> pos_band q w r \<Longrightarrow> p \<le> 4 \<Longrightarrow> q \<le> 4 \<Longrightarrow> p = q \<and> (p = 4 \<or> v = w)"
  unfolding pos_band_def by (auto split: if_splits)


text \<open>
  C2. On valid hand types the comparison is defined and is the order of the internal
  ranks, which lie in disjoint bands per category (High Dice 1221..1665, Straight
  2001..2004, General 3002..3006, Schock 4002..4006, Schock-out 5000). Hence a worse
  category is always less, within one category with a parameter the order is that of
  the parameter, and \<open><\<close> is irreflexive, transitive, asymmetric and total up to
  \<open>==\<close>, where \<open>==\<close> holds only within one category.
\<close>

theorem C2_hand_type_order:
  assumes "valid_HandType a" "valid_HandType b" "valid_HandType c"
  shows "(\<exists>ra rb. internal_rank a = Inr ra \<and> internal_rank b = Inr rb
            \<and> pos_band (category_position (hand_type a)) (hand_type_value a) ra
            \<and> pos_band (category_position (hand_type b)) (hand_type_value b) rb
            \<and> HandType_lt a b = Inr (ra < rb) \<and> HandType_eq a b = Inr (ra = rb))
       \<and> (category_position (hand_type a) < category_position (hand_type b)
            \<longrightarrow> HandType_lt a b = Inr True)
       \<and> (hand_type a = hand_type b \<and> hand_type a \<noteq> ''Schock-out''
            \<longrightarrow> HandType_lt a b = Inr (hand_type_value a < hand_type_value b))
       \<and> HandType_lt a a = Inr False
       \<and> (HandType_lt a b = Inr True \<and> HandType_lt b c = Inr True
            \<longrightarrow> HandType_lt a c = Inr True)
       \<and> (HandType_lt a b = Inr True \<longrightarrow> HandType_lt b a = Inr False)
       \<and> (HandType_lt a b = Inr True \<or> HandType_lt b a = Inr True
            \<or> HandType_eq a b = Inr True)
       \<and> (HandType_eq a b = Inr True
            \<longrightarrow> hand_type a = hand_type b
                \<and> (hand_type a = ''Schock-out'' \<or> hand_type_value a = hand_type_value b))"
proof -
  let ?pa = "category_position (hand_type a)" and ?pb = "category_position (hand_type b)"
  obtain ra where ia: "internal_rank a = Inr ra"
    and ba: "pos_band ?pa (hand_type_value a) ra"
    using valid_rank [OF assms(1)] by blast
  obtain rb where ib: "internal_rank b = Inr rb"
    and bb: "pos_band ?pb (hand_type_value b) rb"
    using valid_rank [OF assms(2)] by blast
  obtain rc where ic: "internal_rank c = Inr rc"
    using valid_rank [OF assms(3)] by blast
  note ab = lt_by_rank [OF ia ib] and ba' = lt_by_rank [OF ib ia]
    and bc = lt_by_rank [OF ib ic] and ac = lt_by_rank [OF ia ic]
    and aa = lt_by_rank [OF ia ia]
  have pa4: "?pa \<le> 4" by (rule valid_position(6) [OF assms(1)])
  have pb4: "?pb \<le> 4" by (rule valid_position(6) [OF assms(2)])
  have 1: "\<exists>ra rb. internal_rank a = Inr ra \<and> internal_rank b = Inr rb
            \<and> pos_band ?pa (hand_type_value a) ra \<and> pos_band ?pb (hand_type_value b) rb
            \<and> HandType_lt a b = Inr (ra < rb) \<and> HandType_eq a b = Inr (ra = rb)"
    using ia ib ba bb ab by blast
  have 2: "?pa < ?pb \<longrightarrow> HandType_lt a b = Inr True"
  proof
    assume "?pa < ?pb"
    then have "ra < rb" using band_position [OF ba bb] pb4 by blast
    then show "HandType_lt a b = Inr True" using ab by simp
  qed
  have 3: "hand_type a = hand_type b \<and> hand_type a \<noteq> ''Schock-out''
            \<longrightarrow> HandType_lt a b = Inr (hand_type_value a < hand_type_value b)"
  proof
    assume h: "hand_type a = hand_type b \<and> hand_type a \<noteq> ''Schock-out''"
    then have pe: "?pb = ?pa" by simp
    have "?pa \<noteq> 4" using h valid_position(5) [OF assms(1)] by blast
    then have lt4: "?pa < 4" using pa4 by linarith
    have bb': "pos_band ?pa (hand_type_value b) rb" using bb pe by simp
    have "(ra < rb) = (hand_type_value a < hand_type_value b)"
      by (rule band_same [OF ba bb' lt4])
    then show "HandType_lt a b = Inr (hand_type_value a < hand_type_value b)"
      using ab by simp
  qed
  have 4: "HandType_lt a a = Inr False" using aa by simp
  have 5: "HandType_lt a b = Inr True \<and> HandType_lt b c = Inr True
            \<longrightarrow> HandType_lt a c = Inr True"
    using ab bc ac by simp
  have 6: "HandType_lt a b = Inr True \<longrightarrow> HandType_lt b a = Inr False"
    using ab ba' by simp
  have 7: "HandType_lt a b = Inr True \<or> HandType_lt b a = Inr True
            \<or> HandType_eq a b = Inr True"
    using ab ba' by auto
  have 8: "HandType_eq a b = Inr True
            \<longrightarrow> hand_type a = hand_type b
                \<and> (hand_type a = ''Schock-out'' \<or> hand_type_value a = hand_type_value b)"
  proof
    assume "HandType_eq a b = Inr True"
    then have "ra = rb" using ab by simp
    then have bb': "pos_band ?pb (hand_type_value b) ra" using bb by simp
    have r: "?pa = ?pb \<and> (?pa = 4 \<or> hand_type_value a = hand_type_value b)"
      by (rule band_equal_rank [OF ba bb' pa4 pb4])
    then have "hand_type a = hand_type b"
      using position_inject [OF assms(1) assms(2)] by blast
    moreover have "hand_type a = ''Schock-out'' \<or> hand_type_value a = hand_type_value b"
      using r valid_position(5) [OF assms(1)] by blast
    ultimately show "hand_type a = hand_type b
        \<and> (hand_type a = ''Schock-out'' \<or> hand_type_value a = hand_type_value b)"
      by blast
  qed
  from 1 2 3 4 5 6 7 8 show ?thesis by (intro conjI)
qed

theorem C2_hand_type_order_witness:
  "valid_HandType \<lparr>hand_type = ''High Dice'', hand_type_value = 665\<rparr>
   \<and> valid_HandType \<lparr>hand_type = ''Straight'', hand_type_value = 1\<rparr>
   \<and> valid_HandType \<lparr>hand_type = ''Schock-out'', hand_type_value = 0\<rparr>
   \<and> HandType_lt \<lparr>hand_type = ''High Dice'', hand_type_value = 665\<rparr>
        \<lparr>hand_type = ''Straight'', hand_type_value = 1\<rparr> = Inr True
   \<and> HandType_lt \<lparr>hand_type = ''Straight'', hand_type_value = 1\<rparr>
        \<lparr>hand_type = ''High Dice'', hand_type_value = 665\<rparr> = Inr False"
proof -
  have va: "valid_HandType \<lparr>hand_type = ''High Dice'', hand_type_value = 665\<rparr>"
    by (simp add: valid_HandType_def HandType_init_def)
  have vb: "valid_HandType \<lparr>hand_type = ''Straight'', hand_type_value = 1\<rparr>"
    by (simp add: valid_HandType_def HandType_init_def)
  have vc: "valid_HandType \<lparr>hand_type = ''Schock-out'', hand_type_value = 0\<rparr>"
    by (simp add: valid_HandType_def HandType_init_def)
  show ?thesis
    using C2_hand_type_order [OF va vb vc] va vb vc
    by (simp add: category_position_def)
qed

subsection \<open>Category determination\<close>

lemma in16: "1 \<le> (a::int) \<Longrightarrow> a \<le> 6 \<Longrightarrow> a = 1 \<or> a = 2 \<or> a = 3 \<or> a = 4 \<or> a = 5 \<or> a = 6"
  by arith

lemma detemine_hand_type_values:
  assumes "dice h = [d1, d2, d3]"
    and "die_value d1 = a" "die_value d2 = b" "die_value d3 = c"
    and "a = 1 \<or> a = 2 \<or> a = 3 \<or> a = 4 \<or> a = 5 \<or> a = 6"
    and "b = 1 \<or> b = 2 \<or> b = 3 \<or> b = 4 \<or> b = 5 \<or> b = 6"
    and "c = 1 \<or> c = 2 \<or> c = 3 \<or> c = 4 \<or> c = 5 \<or> c = 6"
  shows "\<exists>h'. detemine_hand_type h = Inr h' \<and>
           cached_hand_type h' = Some (spec_category a b c (put_together h)) \<and>
           valid_HandType (spec_category a b c (put_together h))"
  using assms
  by (elim disjE) (simp_all add: detemine_hand_type_def spec_category_def HandType_init_def
      bindE_def Hand_sort_def high_dice_value_def Let_def valid_HandType_def)

text \<open>
  C1. For a hand of exactly three dice with values in 1..6, \<open>detemine_hand_type\<close>
  succeeds and caches the category that the specification's precedence gives
  (\<open>spec_category\<close>): three ones Schock-out; two ones Schock of the third value; three
  equal values General; 1-2-3 Straight 1 unless the hand is assembled, then High Dice
  321; 2-3-4, 3-4-5, 4-5-6 Straight 2, 3, 4; anything else High Dice of the values
  sorted descending. The category is valid, and a High Dice value lies in 221..665.
\<close>

theorem C1_category_determination:
  assumes "dice h = [d1, d2, d3]"
    and "\<forall>d \<in> set (dice h). 1 \<le> die_value d \<and> die_value d \<le> 6"
  shows "\<exists>h'. detemine_hand_type h = Inr h'
           \<and> cached_hand_type h'
               = Some (spec_category (die_value d1) (die_value d2) (die_value d3)
                         (put_together h))
           \<and> valid_HandType (spec_category (die_value d1) (die_value d2) (die_value d3)
                         (put_together h))
           \<and> (hand_type (spec_category (die_value d1) (die_value d2) (die_value d3)
                         (put_together h)) = ''High Dice''
                \<longrightarrow> 221 \<le> hand_type_value (spec_category (die_value d1) (die_value d2)
                         (die_value d3) (put_together h))
                  \<and> hand_type_value (spec_category (die_value d1) (die_value d2)
                         (die_value d3) (put_together h)) \<le> 665)"
proof -
  let ?sc = "spec_category (die_value d1) (die_value d2) (die_value d3) (put_together h)"
  have r1: "1 \<le> die_value d1 \<and> die_value d1 \<le> 6" using assms by simp
  have r2: "1 \<le> die_value d2 \<and> die_value d2 \<le> 6" using assms by simp
  have r3: "1 \<le> die_value d3 \<and> die_value d3 \<le> 6" using assms by simp
  obtain h' where h': "detemine_hand_type h = Inr h'" "cached_hand_type h' = Some ?sc"
      "valid_HandType ?sc"
    using detemine_hand_type_values [OF assms(1) refl refl refl in16 in16 in16] r1 r2 r3
    by blast
  have "hand_type ?sc = ''High Dice''
          \<longrightarrow> 221 \<le> hand_type_value ?sc \<and> hand_type_value ?sc \<le> 665"
  proof
    assume hd: "hand_type ?sc = ''High Dice''"
    show "221 \<le> hand_type_value ?sc \<and> hand_type_value ?sc \<le> 665"
      using valid_HandType_cases [OF h'(3)] unfolding hd by simp
  qed
  with h' show ?thesis by blast
qed

text \<open>
  The dice 3, 1, 2: Straight 1 when rolled, High Dice 321 (with the dice sorted) when
  the hand is assembled.
\<close>

theorem C1_category_determination_witness:
  "detemine_hand_type
      \<lparr>dice = [plain_die 3, plain_die 1, plain_die 2], cached_hand_type = None,
       put_together = False, players_turn_ind = 0, finalized = False\<rparr>
     = Inr \<lparr>dice = [plain_die 3, plain_die 1, plain_die 2],
            cached_hand_type = Some \<lparr>hand_type = ''Straight'', hand_type_value = 1\<rparr>,
            put_together = False, players_turn_ind = 0, finalized = False\<rparr>
   \<and> detemine_hand_type
      \<lparr>dice = [plain_die 3, plain_die 1, plain_die 2], cached_hand_type = None,
       put_together = True, players_turn_ind = 0, finalized = False\<rparr>
     = Inr \<lparr>dice = [plain_die 3, plain_die 2, plain_die 1],
            cached_hand_type = Some \<lparr>hand_type = ''High Dice'', hand_type_value = 321\<rparr>,
            put_together = True, players_turn_ind = 0, finalized = False\<rparr>"
  using C1_category_determination [of
      "\<lparr>dice = [plain_die 3, plain_die 1, plain_die 2], cached_hand_type = None,
        put_together = False, players_turn_ind = 0, finalized = False\<rparr>"
      "plain_die 3" "plain_die 1" "plain_die 2"]
    C1_category_determination [of
      "\<lparr>dice = [plain_die 3, plain_die 1, plain_die 2], cached_hand_type = None,
        put_together = True, players_turn_ind = 0, finalized = False\<rparr>"
      "plain_die 3" "plain_die 1" "plain_die 2"]
  by (simp add: plain_die_def spec_category_def detemine_hand_type_def HandType_init_def
      bindE_def Hand_sort_def high_dice_value_def)

subsection \<open>Hands without three dice\<close>




subsection \<open>Display names\<close>

text \<open>
  C9. \<open>get_all_possible_hands\<close> yields 57 hands, and for each of them
  \<open>from_name (to_name h)\<close> is a hand of the same hand type. In particular the name of
  High Dice 221 is Motte and reads back as High Dice 221, Schock-out reads back as
  Schock-out, and the assembled 1-2-3 hand is named 32-1, which reads back as an
  assembled hand of High Dice 321, while the rolled 1-2-3 hand is Straight 1.
\<close>

theorem C9_name_roundtrip:
  "(case get_all_possible_hands of
      Inl _ \<Rightarrow> False
    | Inr hs \<Rightarrow> length hs = 57 \<and> list_all roundtrip_ok hs)
   \<and> bindE (Hand_init [plain_die 2, plain_die 2, plain_die 1] False 0 False) to_name
       = Inr ''Motte''
   \<and> bindE (from_name ''Motte'') Hand_hand_type
       = Inr \<lparr>hand_type = ''High Dice'', hand_type_value = 221\<rparr>
   \<and> bindE (from_name ''Schock-out'') Hand_hand_type
       = Inr \<lparr>hand_type = ''Schock-out'', hand_type_value = 0\<rparr>
   \<and> bindE (Hand_init [plain_die 3, plain_die 2, plain_die 1] True 0 False) to_name
       = Inr ''32-1''
   \<and> bindE (from_name ''32-1'') Hand_hand_type
       = Inr \<lparr>hand_type = ''High Dice'', hand_type_value = 321\<rparr>
   \<and> bindE (Hand_init [plain_die 3, plain_die 2, plain_die 1] False 0 False) Hand_hand_type
       = Inr \<lparr>hand_type = ''Straight'', hand_type_value = 1\<rparr>"
  by code_simp

subsection \<open>Turns\<close>

text \<open>
  C7 fails on the code: \<open>finalize\<close> sets the flags of the hand but assigns nothing to
  the dice, so a die that was rolled and never set aside stays hidden. The hand 1, 1, 2
  of the repository's own test of \<open>finalize\<close> keeps three hidden dice, and so does the
  final hand of a turn of the test player (who ends the turn at once) when every roll
  is a two.
\<close>

theorem C7_finalize_leaves_dice_hidden:
  "finalize schock2_hand = Inr (schock2_hand\<lparr>finalized := True\<rparr>)
   \<and> map visible (dice (schock2_hand\<lparr>finalized := True\<rparr>)) = [False, False, False]
   \<and> play_turn DummyPlayer_strategy always_two 3 0 0 empty_hand 0
       = Inr (\<lparr>turn_index = 0, player_id = 0, final_hand = general2_final_hand,
               num_throws = 1\<rparr>, general2_final_hand, 3)
   \<and> map visible (dice general2_final_hand) = [False, False, False]"
  by code_simp

text \<open>
  C8 fails on the code: the throw loop skips a die that equals, field by field, a die
  already thrown in the same step. From the hand 5, 4, 3 nothing is set aside; the
  first die is thrown and shows a four; the second die, a four that is neither visible
  nor taken out, now counts as processed and keeps its value unthrown; the third die is
  thrown and shows a one. Two random outcomes are used for three dice in play.
\<close>

theorem C8_die_kept_without_throw:
  "Hand_init [plain_die 5, plain_die 4, plain_die 3] False 0 False = Inr straight3_hand
   \<and> throw_new_hand straight3_hand True True False four_then_ones 0
       = Inr (straight3_hand\<lparr>dice := [plain_die 4, plain_die 4, plain_die 1]\<rparr>, 2)"
  by code_simp

subsection \<open>A half ends on Schock-out\<close>

lemma schock_out_init:
  "HandType_init ''Schock-out'' 0 = Inr \<lparr>hand_type = ''Schock-out'', hand_type_value = 0\<rparr>"
  by (simp add: HandType_init_def)

lemma schock_out_eq:
  "hand_type ht = ''Schock-out'' \<Longrightarrow>
   HandType_eq ht \<lparr>hand_type = ''Schock-out'', hand_type_value = 0\<rparr> = Inr True"
  by (simp add: HandType_eq_def internal_rank_def)

text \<open>
  C5. If a pass of the loop of \<open>play_half\<close> plays a mini-round whose best hand is
  Schock-out, then the loser of that mini-round is the loser of the half, the chip
  manager and the flag \<open>stock_chips_gone\<close> are as before the pass (no transfer, whatever
  the balances are), and the loop plays no further mini-round: from the state reached,
  the loop returns that state at once.
\<close>

theorem C5_schock_out_ends_half:
  assumes iter: "play_half_iter strat rs g half mr_index k = Inr (g', half', k')"
    and best: "Hand_hand_type (final_hand (best_turn (last (mini_rounds half')))) = Inr ht"
    and out: "hand_type ht = ''Schock-out''"
  shows "(\<exists>active g1. play_mini_round strat rs g active mr_index k
                        = Inr (last (mini_rounds half'), g1, k'))
       \<and> half_lost_by half' = Some (mr_lost_by (last (mini_rounds half')))
       \<and> mini_rounds half' = mini_rounds half @ [last (mini_rounds half')]
       \<and> chip_manager half' = chip_manager half
       \<and> stock_chips_gone half' = stock_chips_gone half
       \<and> play_half_loop strat rs g' half' (Suc mr_index) k' = Inr (g', half', k')
       \<and> half_after strat rs n g' half' (Suc mr_index) k' = Inr (g', half', k')"
proof -
  from iter obtain active r best_type is_out where
    mr: "play_mini_round strat rs g active mr_index k = Inr r"
    and bt: "Hand_hand_type (final_hand (best_turn (fst r))) = Inr best_type"
    and eq: "HandType_eq best_type \<lparr>hand_type = ''Schock-out'', hand_type_value = 0\<rparr>
               = Inr is_out"
    and rest: "(if is_out then
         Inr ((fst (snd r))\<lparr>last_mr := Some (fst r)\<rparr>,
              half\<lparr>active_players := active,
                   half_lost_by := Some (mr_lost_by (fst r)),
                   mini_rounds := mini_rounds half @ [fst r]\<rparr>,
              snd (snd r))
       else
         bindE (distribute_chips (fst r) (stock_chips_gone half) (chip_manager half)) (\<lambda>d.
         bindE
           (if fst (snd d) then
              (if active \<noteq> []
               then remove_out_players (chip_balances (snd (snd d))) 0 active
               else remove_out_players_of_copy (chip_balances (snd (snd d)))
                      (mini_round_players (fst r)) active)
            else Inr active)
           (\<lambda>active'.
         bindE (check_lost (chip_balances (snd (snd d))) (half_lost_by half)) (\<lambda>lost.
           let mr = (fst r)\<lparr>given_chips := fst d,
                       mini_round_players :=
                         (if active \<noteq> [] then active' else mini_round_players (fst r))\<rparr>
           in Inr ((fst (snd r))\<lparr>last_mr := Some mr\<rparr>,
                   half\<lparr>active_players := active',
                        stock_chips_gone := fst (snd d),
                        chip_manager := snd (snd d),
                        mini_rounds := mini_rounds half @ [mr],
                        half_lost_by := lost\<rparr>,
                   snd (snd r)))))) = Inr (g', half', k')"
    unfolding play_half_iter_def bindE_Inr_iff schock_out_init by auto
  have is_out: "is_out"
  proof (rule ccontr)
    assume no: "\<not> is_out"
    with rest obtain d active' lost where
      h: "half' = half\<lparr>active_players := active',
                        stock_chips_gone := fst (snd d),
                        chip_manager := snd (snd d),
                        mini_rounds := mini_rounds half @
                          [(fst r)\<lparr>given_chips := fst d,
                             mini_round_players :=
                               (if active \<noteq> [] then active' else mini_round_players (fst r))\<rparr>],
                        half_lost_by := lost\<rparr>"
      by (auto simp add: bindE_Inr_iff Let_def)
    have "best_turn (last (mini_rounds half')) = best_turn (fst r)"
      by (simp add: h)
    with best bt have "best_type = ht" by simp
    with eq schock_out_eq [OF out] no show False by simp
  qed
  with rest have g': "g' = (fst (snd r))\<lparr>last_mr := Some (fst r)\<rparr>"
    and h: "half' = half\<lparr>active_players := active,
                   half_lost_by := Some (mr_lost_by (fst r)),
                   mini_rounds := mini_rounds half @ [fst r]\<rparr>"
    and k': "k' = snd (snd r)"
    by simp_all
  have last: "last (mini_rounds half') = fst r" by (simp add: h)
  have 1: "\<exists>active g1. play_mini_round strat rs g active mr_index k
                        = Inr (last (mini_rounds half'), g1, k')"
    using mr last k' by (intro exI [of _ active] exI [of _ "fst (snd r)"]) simp
  have lost: "half_lost_by half' = Some (mr_lost_by (fst r))" by (simp add: h)
  have 6: "play_half_loop strat rs g' half' (Suc mr_index) k' = Inr (g', half', k')"
    using lost by (subst play_half_loop.simps) simp
  have 7: "half_after strat rs n g' half' (Suc mr_index) k' = Inr (g', half', k')"
    using lost by (cases n) simp_all
  show ?thesis
    using 1 6 7 by (simp add: h)
qed

subsection \<open>The hand of a turn has a valid hand type\<close>

lemma HandType_init_valid:
  assumes "HandType_init t v = Inr ht"
  shows "valid_HandType ht"
proof -
  from assms have ht: "ht = \<lparr>hand_type = t, hand_type_value = v\<rparr>"
    by (simp only: HandType_init_ok)
  show ?thesis unfolding valid_HandType_def using assms by (simp add: ht)
qed

lemma init_cache_typed:
  "bindE (HandType_init t v) (\<lambda>ht. Inr (h0\<lparr>cached_hand_type := Some ht\<rparr>)) = Inr h'
     \<Longrightarrow> typed_hand h' \<and> length (dice h') = length (dice h0)"
  by (auto simp add: bindE_Inr_iff typed_hand_def dest: HandType_init_valid)

lemma length_Hand_sort [simp]: "length (dice (Hand_sort h)) = length (dice h)"
  by (simp add: Hand_sort_def)

lemma detemine_hand_type_typed:
  assumes "detemine_hand_type h = Inr h'"
  shows "length (dice h') = length (dice h) \<and> (length (dice h) = 3 \<longrightarrow> typed_hand h')"
proof (cases "length (dice h) = 3")
  case False
  with assms show ?thesis by (simp add: detemine_hand_type_def)
next
  case True
  from assms True show ?thesis
    unfolding detemine_hand_type_def Let_def
    by (auto split: if_splits dest!: init_cache_typed)
qed

lemma update_typed:
  assumes "update h = Inr h'"
  shows "length (dice h') = length (dice h) \<and> (length (dice h) = 3 \<longrightarrow> typed_hand h')"
  using assms detemine_hand_type_typed
  unfolding update_def Let_def by (fastforce split: if_splits)

lemma mapE_length: "mapE f xs = Inr ys \<Longrightarrow> length ys = length xs"
  by (induction xs arbitrary: ys) (auto simp add: bindE_Inr_iff)

lemma Hand_copy_typed:
  assumes "Hand_copy h = Inr h'"
  shows "length (dice h') = length (dice h) \<and> (length (dice h) = 3 \<longrightarrow> typed_hand h')"
proof -
  from assms obtain n0 ds n1 where
    ds: "mapE Die_copy (dice h) = Inr ds"
    and n1: "set_dice n0 ds = Inr n1"
    and h': "update (n1\<lparr>put_together := put_together h,
                  players_turn_ind := players_turn_ind h,
                  finalized := finalized h,
                  cached_hand_type := cached_hand_type h\<rparr>) = Inr h'"
    unfolding Hand_copy_def bindE_Inr_iff by blast
  have l1: "length (dice n1) = length (dice h)"
    using update_typed [OF n1 [unfolded set_dice_def]] mapE_length [OF ds] by simp
  show ?thesis using update_typed [OF h'] l1 by simp
qed

lemma finalize_length:
  assumes "finalize h = Inr h'"
  shows "length (dice h') = 3"
proof -
  have fold_dice: "dice (foldl (\<lambda>acc d. if taken_out d then acc\<lparr>put_together := True\<rparr> else acc) a ds)
                  = dice a" for a :: Hand and ds
    by (induction ds arbitrary: a) simp_all
  from assms have len: "length (dice h) = 3"
    by (simp add: finalize_def split: if_splits)
  with assms obtain h1 where u: "update h = Inr h1"
    and h': "h' = (foldl (\<lambda>acc d. if taken_out d then acc\<lparr>put_together := True\<rparr> else acc)
                h1 (dice h1))\<lparr>finalized := True\<rparr>"
    by (auto simp add: finalize_def bindE_Inr_iff)
  show ?thesis using update_typed [OF u] len by (simp add: h' fold_dice)
qed

lemma play_turn_result:
  assumes "play_turn strat rs max_throws i p h k = Inr (turn, h', k')"
  shows "turn_index turn = i \<and> player_id turn = p
       \<and> length (dice (final_hand turn)) = 3 \<and> typed_hand (final_hand turn)"
proof -
  from assms obtain r h3 fh where
    fin: "finalize (fst r) = Inr h3"
    and cp: "Hand_copy h3 = Inr fh"
    and t: "turn = \<lparr>turn_index = i, player_id = p, final_hand = fh,
                    num_throws = fst (snd r)\<rparr>"
    unfolding play_turn_def bindE_Inr_iff by auto
  show ?thesis
    using Hand_copy_typed [OF cp] finalize_length [OF fin] by (simp add: t)
qed

subsection \<open>Sorting with a comparison that may raise\<close>

lemma insort_by_mset:
  "insort_by lt x ys = Inr zs \<Longrightarrow> mset zs = add_mset x (mset ys)"
proof (induction ys arbitrary: zs)
  case Nil
  then show ?case by simp
next
  case (Cons y ys)
  from Cons.prems obtain less where lt: "lt x y = Inr less"
    and r: "(if less then Inr (x # y # ys)
             else bindE (insort_by lt x ys) (\<lambda>zs. Inr (y # zs))) = Inr zs"
    by (auto simp add: bindE_Inr_iff)
  show ?case
  proof (cases less)
    case True
    with r show ?thesis by auto
  next
    case False
    with r obtain zs' where z: "insort_by lt x ys = Inr zs'" and zs: "zs = y # zs'"
      by (auto simp add: bindE_Inr_iff)
    show ?thesis using Cons.IH [OF z] by (simp add: zs)
  qed
qed

lemma foldE_insort_mset:
  "foldE (\<lambda>acc x. insort_by lt x acc) acc xs = Inr ys \<Longrightarrow> mset ys = mset acc + mset xs"
proof (induction xs arbitrary: acc)
  case Nil
  then show ?case by simp
next
  case (Cons x xs)
  from Cons.prems obtain acc' where a: "insort_by lt x acc = Inr acc'"
    and f: "foldE (\<lambda>acc x. insort_by lt x acc) acc' xs = Inr ys"
    by (auto simp add: bindE_Inr_iff)
  show ?case using Cons.IH [OF f] insort_by_mset [OF a] by simp
qed

lemma sort_by_mset: "sort_by lt xs = Inr ys \<Longrightarrow> mset ys = mset xs"
  unfolding sort_by_def by (drule foldE_insort_mset) simp

text \<open>
  Sorting with a comparison that is defined on the elements at hand and decides a
  total preorder \<open>le\<close> there: the sort succeeds and the result is sorted.
\<close>

lemma insort_by_sorted:
  assumes lt: "\<And>a b. ok a \<Longrightarrow> ok b \<Longrightarrow> lt a b = Inr (\<not> le b a)"
    and total: "\<And>a b. le a b \<or> le b a"
    and trans: "\<And>a b c. le a b \<Longrightarrow> le b c \<Longrightarrow> le a c"
  shows "ok x \<Longrightarrow> \<forall>y \<in> set ys. ok y \<Longrightarrow> sorted_wrt le ys
           \<Longrightarrow> \<exists>zs. insort_by lt x ys = Inr zs \<and> sorted_wrt le zs"
proof (induction ys)
  case Nil
  then show ?case by simp
next
  case (Cons y ys)
  have c: "lt x y = Inr (\<not> le y x)" using Cons.prems lt by simp
  show ?case
  proof (cases "le y x")
    case False
    then have xy: "le x y" using total by blast
    have "\<forall>z \<in> set ys. le x z" using Cons.prems(3) xy trans by auto
    with Cons.prems(3) xy show ?thesis by (simp add: c False)
  next
    case True
    from Cons.prems obtain zs where z: "insort_by lt x ys = Inr zs" and s: "sorted_wrt le zs"
      using Cons.IH by auto
    have "set zs = insert x (set ys)"
      using insort_by_mset [OF z] by (metis set_mset_mset set_mset_add_mset_insert)
    with Cons.prems(3) True s show ?thesis by (simp add: c True z)
  qed
qed

lemma foldE_insort_sorted:
  assumes lt: "\<And>a b. ok a \<Longrightarrow> ok b \<Longrightarrow> lt a b = Inr (\<not> le b a)"
    and total: "\<And>a b. le a b \<or> le b a"
    and trans: "\<And>a b c. le a b \<Longrightarrow> le b c \<Longrightarrow> le a c"
  shows "\<forall>x \<in> set xs. ok x \<Longrightarrow> \<forall>y \<in> set acc. ok y \<Longrightarrow> sorted_wrt le acc
           \<Longrightarrow> \<exists>ys. foldE (\<lambda>acc x. insort_by lt x acc) acc xs = Inr ys \<and> sorted_wrt le ys"
proof (induction xs arbitrary: acc)
  case Nil
  then show ?case by simp
next
  case (Cons x xs)
  obtain acc' where a: "insort_by lt x acc = Inr acc'" and s: "sorted_wrt le acc'"
  proof -
    have p: "ok x" "\<forall>y \<in> set acc. ok y" "sorted_wrt le acc" using Cons.prems by simp_all
    have "\<exists>zs. insort_by lt x acc = Inr zs \<and> sorted_wrt le zs"
      using insort_by_sorted [where ok = ok and lt = lt and le = le and x = x and ys = acc,
          OF lt total trans p] .
    then show ?thesis using that by blast
  qed
  have "set acc' = insert x (set acc)"
    using insort_by_mset [OF a] by (metis set_mset_mset set_mset_add_mset_insert)
  then have ok: "\<forall>y \<in> set acc'. ok y" using Cons.prems by simp
  have xs: "\<forall>x \<in> set xs. ok x" using Cons.prems(1) by simp
  show ?case using Cons.IH [OF xs ok s] by (simp add: a)
qed

lemma sort_by_sorted:
  assumes lt: "\<And>a b. ok a \<Longrightarrow> ok b \<Longrightarrow> lt a b = Inr (\<not> le b a)"
    and total: "\<And>a b. le a b \<or> le b a"
    and trans: "\<And>a b c. le a b \<Longrightarrow> le b c \<Longrightarrow> le a c"
    and ok: "\<forall>x \<in> set xs. ok x"
  shows "\<exists>ys. sort_by lt xs = Inr ys \<and> sorted_wrt le ys"
proof -
  have "\<exists>ys. foldE (\<lambda>acc x. insort_by lt x acc) [] xs = Inr ys \<and> sorted_wrt le ys"
    using foldE_insort_sorted [where ok = ok and lt = lt and le = le and xs = xs
        and acc = "[]", OF lt total trans ok] by simp
  then show ?thesis by (simp add: sort_by_def)
qed

subsection \<open>The order of turns and the turns of a mini-round\<close>

lemma typed_hand_rank:
  assumes "typed_hand h"
  shows "\<exists>ht r. Hand_hand_type h = Inr ht \<and> valid_HandType ht \<and> internal_rank ht = Inr r"
proof -
  from assms obtain ht where c: "cached_hand_type h = Some ht" and v: "valid_HandType ht"
    by (auto simp add: typed_hand_def)
  from valid_rank [OF v] obtain r where "internal_rank ht = Inr r" by blast
  with c v show ?thesis by (simp add: Hand_hand_type_def)
qed

lemma Turn_lt_typed:
  assumes "typed_hand (final_hand a)" "typed_hand (final_hand b)"
  shows "Turn_lt a b = Inr (\<not> turn_le b a)"
proof -
  from typed_hand_rank [OF assms(1)] obtain ta ra where
    a: "Hand_hand_type (final_hand a) = Inr ta" "internal_rank ta = Inr ra" by blast
  from typed_hand_rank [OF assms(2)] obtain tb rb where
    b: "Hand_hand_type (final_hand b) = Inr tb" "internal_rank tb = Inr rb" by blast
  have ra: "turn_rank a = ra" and rb: "turn_rank b = rb"
    using a b by (simp_all add: turn_rank_def)
  show ?thesis
    unfolding Turn_lt_def Hand_eq_def Hand_lt_def HandType_eq_def HandType_lt_def turn_le_def
      ra rb
    using a b by auto
qed

lemma turn_le_total: "turn_le a b \<or> turn_le b a"
  unfolding turn_le_def by linarith

lemma turn_le_trans: "turn_le a b \<Longrightarrow> turn_le b c \<Longrightarrow> turn_le a c"
  unfolding turn_le_def by linarith


lemma typed_hand_turn_ind [simp]:
  "typed_hand (h\<lparr>players_turn_ind := i\<rparr>) = typed_hand h"
  by (simp add: typed_hand_def)

lemma play_turns_result:
  "play_turns strat rs ps i mt hs k = Inr (ts, hs', k') \<Longrightarrow>
     map turn_index ts = [i..<i + length ps] \<and> map player_id ts = ps
     \<and> (\<forall>t \<in> set ts. players_turn_ind (final_hand t) = int (turn_index t)
            \<and> length (dice (final_hand t)) = 3 \<and> typed_hand (final_hand t))"
proof (induction ps arbitrary: i mt hs k ts hs' k')
  case Nil
  then show ?case by simp
next
  case (Cons p ps)
  from Cons.prems obtain r r2 where
    pt: "play_turn (strat p) rs mt i p (hs p) k = Inr r"
    and rec: "play_turns strat rs ps (Suc i) (if i = 0 then num_throws (fst r) else mt)
                (hs(p := fst (snd r))) (snd (snd r)) = Inr r2"
    and ts: "ts = (fst r)\<lparr>final_hand := (final_hand (fst r))\<lparr>players_turn_ind := int i\<rparr>\<rparr> # fst r2"
    by (auto simp add: bindE_Inr_iff Let_def)
  obtain turn h1 k1 where r: "r = (turn, h1, k1)" by (cases r) auto
  obtain ts2 hs2 k2 where r2: "r2 = (ts2, hs2, k2)" by (cases r2) auto
  note t = play_turn_result [OF pt [unfolded r]]
  note ih = Cons.IH [OF rec [unfolded r2]]
  have u: "[i..<Suc (i + length ps)] = i # [Suc i..<Suc (i + length ps)]"
    by (subst upt_rec) simp
  show ?case using t ih by (simp add: ts r r2 u del: upt_Suc)
qed

lemma valid_chips:
  assumes "valid_HandType ht"
  shows "\<exists>c. chips ht = Inr c \<and> 1 \<le> c \<and> c \<le> 13"
  using valid_HandType_cases [OF assms]
  by (elim disjE conjE) (simp_all add: chips_def)


lemma play_mini_round_result:
  assumes ok: "play_mini_round strat rs g mr_players mr_index k = Inr (mr, g', k')"
  shows "(if mr_players = [] then players g else mr_players) = mini_round_players mr"
    and "mini_round_index mr = mr_index"
    and "2 \<le> length (mini_round_players mr)"
    and "length (mini_round_players mr) \<le> 50"
    and "length (turns mr) = length (mini_round_players mr)"
    and "distinct (map turn_index (turns mr))"
    and "\<forall>t \<in> set (turns mr).
             turn_index t < length (mini_round_players mr)
           \<and> player_id t = mini_round_players mr ! turn_index t
           \<and> players_turn_ind (final_hand t) = int (turn_index t)
           \<and> length (dice (final_hand t)) = 3
           \<and> typed_hand (final_hand t)"
    and "sorted_wrt turn_le (turns mr)"
    and "worst_turn mr = turns mr ! 0"
    and "best_turn mr = turns mr ! (length (turns mr) - 1)"
    and "get_chip_count (final_hand (best_turn mr)) = Inr (given_chips mr)"
    and "mr_lost_by mr = player_id (worst_turn mr)"
proof -
  define ps where "ps = (if mr_players = [] then players g else mr_players)"
  from ok have len: "2 \<le> length ps" "length ps \<le> 50"
    unfolding play_mini_round_def Let_def ps_def by (auto split: if_splits)
  from ok len obtain r sorted_turns worst best chip_count where
    pt: "play_turns strat rs ps 0 3 (hands g) k = Inr r"
    and so: "sort_by Turn_lt (fst r) = Inr sorted_turns"
    and w: "index_at sorted_turns 0 = Inr worst"
    and b: "index_at sorted_turns (length sorted_turns - 1) = Inr best"
    and c: "get_chip_count (final_hand best) = Inr chip_count"
    and mr: "mr = \<lparr>mini_round_players = ps, mini_round_index = mr_index,
                 turns = sorted_turns, worst_turn = worst, best_turn = best,
                 given_chips = chip_count, mr_lost_by = player_id worst\<rparr>"
    unfolding play_mini_round_def Let_def ps_def [symmetric]
    by (auto split: if_splits simp add: bindE_Inr_iff)
  obtain ts hs1 k1 where r: "r = (ts, hs1, k1)" by (cases r) auto
  note res = play_turns_result [OF pt [unfolded r]]
  have ix: "map turn_index ts = [0..<length ps]" and pl: "map player_id ts = ps"
    and typed: "\<forall>t \<in> set ts. players_turn_ind (final_hand t) = int (turn_index t)
            \<and> length (dice (final_hand t)) = 3 \<and> typed_hand (final_hand t)"
    using res by simp_all
  have lts: "length ts = length ps" using pl by (metis length_map)
  have ms: "mset sorted_turns = mset ts" using sort_by_mset [OF so] by (simp add: r)
  then have set_eq: "set sorted_turns = set ts" by (metis set_mset_mset)
  have len_eq: "length sorted_turns = length ps" using ms lts by (metis size_mset)
  have "mset (map turn_index sorted_turns) = mset (map turn_index ts)"
    using ms by (metis mset_map)
  then have dist: "distinct (map turn_index sorted_turns)"
    using mset_eq_imp_distinct_iff [of "map turn_index sorted_turns" "map turn_index ts"]
    by (simp add: ix)
  have each: "turn_index t < length ps \<and> player_id t = ps ! turn_index t" if "t \<in> set ts" for t
  proof -
    from that obtain j where j: "j < length ts" "ts ! j = t" by (auto simp add: in_set_conv_nth)
    have "turn_index t = map turn_index ts ! j" using j by simp
    then have tj: "turn_index t = j" using j lts by (simp add: ix)
    have "player_id t = map player_id ts ! j" using j by simp
    then have "player_id t = ps ! j" by (simp add: pl)
    with tj j lts show ?thesis by simp
  qed
  have "\<exists>ys. sort_by Turn_lt ts = Inr ys \<and> sorted_wrt turn_le ys"
  proof (rule sort_by_sorted [where ok = "\<lambda>t. typed_hand (final_hand t)" and le = turn_le])
    show "Turn_lt a b = Inr (\<not> turn_le b a)"
      if "typed_hand (final_hand a)" "typed_hand (final_hand b)" for a b
      using that by (rule Turn_lt_typed)
    show "turn_le a b \<or> turn_le b a" for a b by (rule turn_le_total)
    show "turn_le a c" if "turn_le a b" "turn_le b c" for a b c
      using that by (rule turn_le_trans)
    show "\<forall>t \<in> set ts. typed_hand (final_hand t)" using typed by simp
  qed
  then have sorted: "sorted_wrt turn_le sorted_turns" using so by (simp add: r)
  have w': "worst = sorted_turns ! 0" and b': "best = sorted_turns ! (length sorted_turns - 1)"
    using w b len len_eq by (simp_all add: index_at_def split: if_splits)
  show "(if mr_players = [] then players g else mr_players) = mini_round_players mr"
    by (simp add: mr ps_def)
  show "mini_round_index mr = mr_index" by (simp add: mr)
  show "2 \<le> length (mini_round_players mr)" using len by (simp add: mr)
  show "length (mini_round_players mr) \<le> 50" using len by (simp add: mr)
  show "length (turns mr) = length (mini_round_players mr)" using len_eq by (simp add: mr)
  show "distinct (map turn_index (turns mr))" using dist by (simp add: mr)
  show "\<forall>t \<in> set (turns mr).
             turn_index t < length (mini_round_players mr)
           \<and> player_id t = mini_round_players mr ! turn_index t
           \<and> players_turn_ind (final_hand t) = int (turn_index t)
           \<and> length (dice (final_hand t)) = 3
           \<and> typed_hand (final_hand t)"
    using each typed set_eq by (simp add: mr)
  show "sorted_wrt turn_le (turns mr)" using sorted by (simp add: mr)
  show "worst_turn mr = turns mr ! 0" using w' by (simp add: mr)
  show "best_turn mr = turns mr ! (length (turns mr) - 1)" using b' by (simp add: mr)
  show "get_chip_count (final_hand (best_turn mr)) = Inr (given_chips mr)"
    using c by (simp add: mr)
  show "mr_lost_by mr = player_id (worst_turn mr)" by (simp add: mr)
qed

subsection \<open>The result of a mini-round\<close>




text \<open>
  The same rolls in the first pass of a half: the half is lost by player 0 and the chip
  manager still holds 13 chips in stock and no balance.
\<close>

theorem C5_schock_out_ends_half_witness:
  "\<exists>g' half' k' ht.
      play_half_iter dummy_players sixes_then_ones two_player_game two_player_half 0 0
        = Inr (g', half', k')
    \<and> Hand_hand_type (final_hand (best_turn (last (mini_rounds half')))) = Inr ht
    \<and> hand_type ht = ''Schock-out''
    \<and> half_lost_by half' = Some 0
    \<and> chip_manager half' = chip_manager two_player_half
    \<and> play_half_loop dummy_players sixes_then_ones g' half' 1 k' = Inr (g', half', k')"
proof -
  have "case play_half_iter dummy_players sixes_then_ones two_player_game two_player_half 0 0 of
          Inl _ \<Rightarrow> False
        | Inr r \<Rightarrow>
            (case Hand_hand_type (final_hand (best_turn (last (mini_rounds (fst (snd r)))))) of
               Inl _ \<Rightarrow> False
             | Inr ht \<Rightarrow> hand_type ht = ''Schock-out''
                          \<and> mr_lost_by (last (mini_rounds (fst (snd r)))) = 0)"
    by code_simp
  then obtain g' half' k' ht where
    it: "play_half_iter dummy_players sixes_then_ones two_player_game two_player_half 0 0
           = Inr (g', half', k')"
    and ht: "Hand_hand_type (final_hand (best_turn (last (mini_rounds half')))) = Inr ht"
    and out: "hand_type ht = ''Schock-out''"
    and l: "mr_lost_by (last (mini_rounds half')) = 0"
    by (auto split: sum.splits)
  from C5_schock_out_ends_half [OF it ht out, of 0] it ht out l show ?thesis by auto
qed

subsection \<open>Chip conservation in a half\<close>

lemma dict_get_Inr [simp]: "dict_get d key = Inr v \<longleftrightarrow> map_of d key = Some v"
  by (simp add: dict_get_def split: option.splits)

lemma sum_list_update:
  "distinct (map fst d) \<Longrightarrow> map_of d key = Some c \<Longrightarrow>
     sum_list (map snd (AList.update key v d)) = sum_list (map snd d) - c + (v::int)"
proof (induction d)
  case Nil
  then show ?case by simp
next
  case (Cons e d)
  show ?case
  proof (cases "fst e = key")
    case True
    with Cons.prems show ?thesis by (cases e) auto
  next
    case False
    with Cons show ?thesis by (cases e) auto
  qed
qed

lemma list_all_update:
  "list_all P d \<Longrightarrow> P (key, v) \<Longrightarrow> list_all P (AList.update key v d)"
  by (induction d) auto

lemma list_all_map_of:
  "list_all P d \<Longrightarrow> map_of d key = Some c \<Longrightarrow> P (key, c)"
  by (auto simp add: list_all_iff dest: map_of_SomeD)

lemma sum_list_snd_nonneg:
  "list_all (\<lambda>entry. 0 \<le> snd entry) d \<Longrightarrow> (0::int) \<le> sum_list (map snd d)"
  by (induction d) auto

lemma entry_le_sum:
  "list_all (\<lambda>entry. 0 \<le> snd entry) d \<Longrightarrow> (key, c) \<in> set d \<Longrightarrow>
     (c::int) \<le> sum_list (map snd d)"
proof (induction d)
  case Nil
  then show ?case by simp
next
  case (Cons e d)
  have nonneg: "0 \<le> sum_list (map snd d)"
    using Cons.prems(1) by (simp add: sum_list_snd_nonneg)
  show ?case
  proof (cases "(key, c) = e")
    case True
    with nonneg show ?thesis by auto
  next
    case False
    with Cons have "c \<le> sum_list (map snd d)" by auto
    with Cons.prems(1) show ?thesis by auto
  qed
qed

lemma initial_balances:
  "list_all (\<lambda>entry. snd entry = 0) d \<Longrightarrow> distinct (map fst d) \<Longrightarrow>
     list_all (\<lambda>entry. snd entry = (0::int)) (foldl (\<lambda>d p. AList.update p 0 d) d ps)
     \<and> distinct (map fst (foldl (\<lambda>d p. AList.update p 0 d) d ps))"
proof (induction ps arbitrary: d)
  case Nil
  then show ?case by simp
next
  case (Cons p ps)
  have "list_all (\<lambda>entry. snd entry = 0) (AList.update p 0 d)"
    using Cons.prems(1) by (intro list_all_update) simp_all
  moreover have "distinct (map fst (AList.update p 0 d))"
    using Cons.prems(2) by (rule distinct_update)
  ultimately show ?case using Cons.IH by simp
qed

lemma all_zero_sum:
  "list_all (\<lambda>entry. snd entry = (0::int)) d \<Longrightarrow>
     sum_list (map snd d) = 0 \<and> list_all (\<lambda>entry. 0 \<le> snd entry) d"
  by (induction d) auto

lemma half_setup_inv:
  assumes "half_setup g halves_ix players_arg = Inr half0"
  shows "chip_inv half0 \<and> half_lost_by half0 = None \<and> mini_rounds half0 = []
       \<and> halves_index half0 = halves_ix \<and> \<not> stock_chips_gone half0
       \<and> chips_in_stock (chip_manager half0) = 13"
proof -
  from assms obtain active where
    h: "half0 = \<lparr>halves_index = halves_ix, active_players = active, mini_rounds = [],
               half_lost_by = None, stock_chips_gone = False,
               chip_manager =
                 \<lparr>chips_in_stock = 13,
                  chip_balances = foldl (\<lambda>d p. AList.update p 0 d) [] active\<rparr>\<rparr>"
    by (auto simp add: half_setup_def bindE_Inr_iff)
  have z: "list_all (\<lambda>entry. snd entry = (0::int)) (foldl (\<lambda>d p. AList.update p 0 d) [] active)"
    and d: "distinct (map fst (foldl (\<lambda>d p. AList.update p (0::int) d) [] active))"
    using initial_balances [of "[]" active] by simp_all
  show ?thesis
    using all_zero_sum [OF z] d by (simp add: h chip_inv_def chip_state_ok_def)
qed

lemma distribute_chips_ok:
  assumes d: "distribute_chips mr gone cm = Inr (given, gone', cm')"
    and ok: "chip_state_ok gone cm"
    and g: "0 \<le> given_chips mr"
  shows "chip_state_ok gone' cm'"
    and "0 \<le> given" and "given \<le> given_chips mr"
    and "\<not> gone \<Longrightarrow> given = min (given_chips mr) (chips_in_stock cm)
                    \<and> chips_in_stock cm' = chips_in_stock cm - given
                    \<and> gone' = (given_chips mr \<ge> chips_in_stock cm)"
    and "gone \<Longrightarrow> gone' \<and> (\<exists>b. map_of (chip_balances cm) (player_id (best_turn mr)) = Some b
                    \<and> given = min (given_chips mr) b)
                    \<and> sum_list (map snd (chip_balances cm')) = sum_list (map snd (chip_balances cm))"
proof -
  let ?bal = "chip_balances cm"
  from ok have sum: "chips_in_stock cm + sum_list (map snd ?bal) = 13"
    and nonneg: "list_all (\<lambda>entry. 0 \<le> snd entry) ?bal"
    and dist: "distinct (map fst ?bal)"
    and stock: "if gone then chips_in_stock cm = 0 else 0 < chips_in_stock cm"
    by (simp_all add: chip_state_ok_def)
  from d obtain r l where
    first: "(if \<not> gone then
          (let stock = chips_in_stock cm - given_chips mr in
           if stock \<le> 0
           then Inr (given_chips mr - abs stock, True, cm\<lparr>chips_in_stock := 0\<rparr>)
           else Inr (given_chips mr, False, cm\<lparr>chips_in_stock := stock\<rparr>))
        else
          bindE (dict_get (chip_balances cm) (player_id (best_turn mr))) (\<lambda>b.
            let given = min (given_chips mr) b in
            Inr (given, True,
                 cm\<lparr>chip_balances :=
                      AList.update (player_id (best_turn mr)) (b - given) (chip_balances cm)\<rparr>)))
        = Inr r"
    and l: "map_of (chip_balances (snd (snd r))) (mr_lost_by mr) = Some l"
    and res: "given = fst r" "gone' = fst (snd r)"
       "cm' = (snd (snd r))\<lparr>chip_balances :=
                      AList.update (mr_lost_by mr) (l + fst r) (chip_balances (snd (snd r)))\<rparr>"
    by (auto simp add: distribute_chips_def bindE_Inr_iff)
  obtain g1 gone1 cm1 where r: "r = (g1, gone1, cm1)" by (cases r) auto
  have step1: "chips_in_stock cm1 + sum_list (map snd (chip_balances cm1)) + g1 = 13
      \<and> list_all (\<lambda>entry. 0 \<le> snd entry) (chip_balances cm1)
      \<and> distinct (map fst (chip_balances cm1))
      \<and> (if gone1 then chips_in_stock cm1 = 0 else 0 < chips_in_stock cm1)
      \<and> 0 \<le> g1 \<and> g1 \<le> given_chips mr
      \<and> (\<not> gone \<longrightarrow> g1 = min (given_chips mr) (chips_in_stock cm)
                    \<and> chips_in_stock cm1 = chips_in_stock cm - g1
                    \<and> gone1 = (given_chips mr \<ge> chips_in_stock cm)
                    \<and> chip_balances cm1 = ?bal)
      \<and> (gone \<longrightarrow> gone1 \<and> (\<exists>b. map_of ?bal (player_id (best_turn mr)) = Some b
                    \<and> g1 = min (given_chips mr) b)
                    \<and> sum_list (map snd (chip_balances cm1)) + g1 = sum_list (map snd ?bal))"
  proof (cases gone)
    case False
    with first r sum nonneg dist stock g show ?thesis
      by (auto simp add: Let_def split: if_splits)
  next
    case True
    with first r obtain b where b: "map_of ?bal (player_id (best_turn mr)) = Some b"
      and g1: "g1 = min (given_chips mr) b" and gone1: "gone1"
      and cm1: "cm1 = cm\<lparr>chip_balances :=
                      AList.update (player_id (best_turn mr)) (b - g1) ?bal\<rparr>"
      by (auto simp add: bindE_Inr_iff Let_def)
    have b0: "0 \<le> b" using list_all_map_of [OF nonneg b] by simp
    have s: "sum_list (map snd (chip_balances cm1)) = sum_list (map snd ?bal) - b + (b - g1)"
      using sum_list_update [OF dist b] by (simp add: cm1)
    have n: "list_all (\<lambda>entry. 0 \<le> snd entry) (chip_balances cm1)"
      using nonneg b0 g1 by (simp add: cm1 list_all_update)
    have di: "distinct (map fst (chip_balances cm1))"
      using dist by (simp add: cm1 distinct_update)
    show ?thesis
      using True s n di b g1 gone1 b0 g sum stock by (simp add: cm1)
  qed
  have l': "map_of (chip_balances cm1) (mr_lost_by mr) = Some l" using l by (simp add: r)
  have cm': "cm' = cm1\<lparr>chip_balances := AList.update (mr_lost_by mr) (l + g1) (chip_balances cm1)\<rparr>"
    using res by (simp add: r)
  have l0: "0 \<le> l" using step1 list_all_map_of [OF _ l'] by fastforce
  have s2: "sum_list (map snd (chip_balances cm')) = sum_list (map snd (chip_balances cm1)) + g1"
    using sum_list_update [OF _ l', of "l + g1"] step1 by (simp add: cm')
  have n2: "list_all (\<lambda>entry. 0 \<le> snd entry) (chip_balances cm')"
    using step1 l0 by (simp add: cm' list_all_update)
  have d2: "distinct (map fst (chip_balances cm'))"
    using step1 by (simp add: cm' distinct_update)
  have given: "given = g1" and gone': "gone' = gone1" using res by (simp_all add: r)
  show "chip_state_ok gone' cm'"
    using step1 s2 n2 d2 by (simp add: chip_state_ok_def gone' cm')
  show "0 \<le> given" using step1 by (simp add: given)
  show "given \<le> given_chips mr" using step1 by (simp add: given)
  show "given = min (given_chips mr) (chips_in_stock cm)
                    \<and> chips_in_stock cm' = chips_in_stock cm - given
                    \<and> gone' = (given_chips mr \<ge> chips_in_stock cm)" if "\<not> gone"
    using step1 that by (simp add: given gone' cm')
  show "gone' \<and> (\<exists>b. map_of (chip_balances cm) (player_id (best_turn mr)) = Some b
                    \<and> given = min (given_chips mr) b)
                    \<and> sum_list (map snd (chip_balances cm')) = sum_list (map snd (chip_balances cm))"
    if "gone"
    using step1 that s2 by (simp add: given gone')
qed

lemma mini_round_chips:
  assumes ok: "play_mini_round strat rs g mr_players mr_index k = Inr (mr, g', k')"
  shows "1 \<le> given_chips mr \<and> given_chips mr \<le> 13"
proof -
  note res = play_mini_round_result [OF ok]
  have "best_turn mr \<in> set (turns mr)"
    unfolding res(10) using res(3) res(5) by (auto intro!: nth_mem)
  then have "typed_hand (final_hand (best_turn mr))" using res(7) by blast
  from typed_hand_rank [OF this] obtain ht where
    ht: "Hand_hand_type (final_hand (best_turn mr)) = Inr ht" and v: "valid_HandType ht"
    by blast
  from res(11) have "chips ht = Inr (given_chips mr)"
    using ht by (simp add: get_chip_count_def split: if_splits)
  with valid_chips [OF v] show ?thesis by simp
qed

lemma play_half_iter_inv:
  assumes it: "play_half_iter strat rs g half mr_index k = Inr (g', half', k')"
    and inv: "chip_inv half"
  shows "chip_inv half'"
    and "stock_chips_gone half \<Longrightarrow> stock_chips_gone half'
          \<and> sum_list (map snd (chip_balances (chip_manager half')))
              = sum_list (map snd (chip_balances (chip_manager half)))"
    and "chips_in_stock (chip_manager half') \<le> chips_in_stock (chip_manager half)"
proof -
  from it obtain active r best_type is_out where
    mr: "play_mini_round strat rs g active mr_index k = Inr r"
    and rest: "(if is_out then
         Inr ((fst (snd r))\<lparr>last_mr := Some (fst r)\<rparr>,
              half\<lparr>active_players := active,
                   half_lost_by := Some (mr_lost_by (fst r)),
                   mini_rounds := mini_rounds half @ [fst r]\<rparr>,
              snd (snd r))
       else
         bindE (distribute_chips (fst r) (stock_chips_gone half) (chip_manager half)) (\<lambda>d.
         bindE
           (if fst (snd d) then
              (if active \<noteq> []
               then remove_out_players (chip_balances (snd (snd d))) 0 active
               else remove_out_players_of_copy (chip_balances (snd (snd d)))
                      (mini_round_players (fst r)) active)
            else Inr active)
           (\<lambda>active'.
         bindE (check_lost (chip_balances (snd (snd d))) (half_lost_by half)) (\<lambda>lost.
           let mr = (fst r)\<lparr>given_chips := fst d,
                       mini_round_players :=
                         (if active \<noteq> [] then active' else mini_round_players (fst r))\<rparr>
           in Inr ((fst (snd r))\<lparr>last_mr := Some mr\<rparr>,
                   half\<lparr>active_players := active',
                        stock_chips_gone := fst (snd d),
                        chip_manager := snd (snd d),
                        mini_rounds := mini_rounds half @ [mr],
                        half_lost_by := lost\<rparr>,
                   snd (snd r)))))) = Inr (g', half', k')"
    unfolding play_half_iter_def bindE_Inr_iff schock_out_init by auto
  define m where "m = fst r"
  have "play_mini_round strat rs g active mr_index k = Inr (m, fst (snd r), snd (snd r))"
    using mr by (simp add: m_def)
  from mini_round_chips [OF this] have g0: "0 \<le> given_chips m" by simp
  from inv have ok: "chip_state_ok (stock_chips_gone half) (chip_manager half)"
    by (simp add: chip_inv_def)
  have "chip_inv half'
      \<and> (stock_chips_gone half \<longrightarrow> stock_chips_gone half'
          \<and> sum_list (map snd (chip_balances (chip_manager half')))
              = sum_list (map snd (chip_balances (chip_manager half))))
      \<and> chips_in_stock (chip_manager half') \<le> chips_in_stock (chip_manager half)"
  proof (cases is_out)
    case True
    with rest have "half' = half\<lparr>active_players := active,
                   half_lost_by := Some (mr_lost_by (fst r)),
                   mini_rounds := mini_rounds half @ [fst r]\<rparr>" by simp
    then show ?thesis using inv by (simp add: chip_inv_def)
  next
    case False
    from rest False obtain d active' lost where
      d: "distribute_chips (fst r) (stock_chips_gone half) (chip_manager half) = Inr d"
      and h: "half' = half\<lparr>active_players := active',
                        stock_chips_gone := fst (snd d),
                        chip_manager := snd (snd d),
                        mini_rounds := mini_rounds half @
                          [(fst r)\<lparr>given_chips := fst d,
                             mini_round_players :=
                               (if active \<noteq> [] then active' else mini_round_players (fst r))\<rparr>],
                        half_lost_by := lost\<rparr>"
      by (auto simp add: bindE_Inr_iff Let_def)
    obtain given gone' cm' where dd: "d = (given, gone', cm')" by (cases d) auto
    note dc = distribute_chips_ok [OF d [unfolded dd m_def [symmetric]] ok g0]
    have stock: "chips_in_stock cm' \<le> chips_in_stock (chip_manager half)"
    proof (cases "stock_chips_gone half")
      case True
      with dc(1) dc(5) ok show ?thesis by (simp add: chip_state_ok_def)
    next
      case False
      with dc(4) dc(2) show ?thesis by simp
    qed
    show ?thesis using dc(1) dc(5) stock by (simp add: h dd chip_inv_def)
  qed
  then show "chip_inv half'"
    and "stock_chips_gone half \<Longrightarrow> stock_chips_gone half'
          \<and> sum_list (map snd (chip_balances (chip_manager half')))
              = sum_list (map snd (chip_balances (chip_manager half)))"
    and "chips_in_stock (chip_manager half') \<le> chips_in_stock (chip_manager half)"
    by blast+
qed

lemma half_after_inv:
  "chip_inv half \<Longrightarrow> half_after strat rs n g half mr_index k = Inr (g', half', k')
     \<Longrightarrow> chip_inv half'"
proof (induction n arbitrary: g half mr_index k)
  case 0
  then show ?case by simp
next
  case (Suc n)
  show ?case
  proof (cases "half_lost_by half = None \<and> mr_index < 1000")
    case False
    with Suc.prems show ?thesis by auto
  next
    case True
    with Suc.prems(2) obtain g1 half1 k1 where
      it: "play_half_iter strat rs g half mr_index k = Inr (g1, half1, k1)"
      and rec: "half_after strat rs n g1 half1 (Suc mr_index) k1 = Inr (g', half', k')"
      by (auto split: sum.splits)
    from play_half_iter_inv(1) [OF it Suc.prems(1)] rec show ?thesis by (rule Suc.IH)
  qed
qed

lemma half_after_loop:
  "mr_index + n \<ge> 1000 \<Longrightarrow>
     half_after strat rs n g half mr_index k = play_half_loop strat rs g half mr_index k"
proof (induction n arbitrary: g half mr_index k)
  case 0
  then show ?case by (subst play_half_loop.simps) simp
next
  case (Suc n)
  show ?case
  proof (cases "half_lost_by half = None \<and> mr_index < 1000")
    case False
    then show ?thesis by (subst play_half_loop.simps) auto
  next
    case True
    have ih: "half_after strat rs n g1 half1 (Suc mr_index) k1
                = play_half_loop strat rs g1 half1 (Suc mr_index) k1" for g1 half1 k1
      using Suc.prems by (intro Suc.IH) simp
    show ?thesis
      using True by (subst play_half_loop.simps) (simp add: ih split: sum.splits)
  qed
qed

text \<open>
  C3. Let a half start (\<open>half_setup\<close>) and let \<open>half'\<close> be its state after any number
  \<open>n\<close> of passes of the loop, that is at a mini-round boundary; the state after 1000
  passes is the result of \<open>play_half\<close>. Then stock and balances add up to 13, the stock
  is in 0..13 and is marked gone exactly when it is 0, every balance is in 0..13, and
  the balances add up to at most 13. A transfer made in that state gives at most the
  chip value: while the stock lasts it gives the smaller of the chip value and the
  stock, and debits the stock by that; once the stock is gone the stock stays 0, the
  sum of the balances is unchanged, and the amount is the smaller of the chip value and
  the balance of the player of the best turn. One more pass of the loop conserves the
  total of 13, never raises the stock, and after exhaustion leaves the stock at 0 and
  the sum of the balances as it was.
\<close>

theorem C3_chip_conservation:
  assumes start: "half_setup g halves_ix players_arg = Inr half0"
    and reach: "half_after strat rs n g half0 0 k = Inr (g', half', k')"
  shows "play_half strat rs g halves_ix players_arg k
           = bindE (half_after strat rs 1000 g half0 0 k)
               (\<lambda>r. Inr (fst (snd r), fst r, snd (snd r)))
       \<and> chips_in_stock (chip_manager half')
           + sum_list (map snd (chip_balances (chip_manager half'))) = 13
       \<and> 0 \<le> chips_in_stock (chip_manager half')
       \<and> chips_in_stock (chip_manager half') \<le> 13
       \<and> (\<forall>entry \<in> set (chip_balances (chip_manager half')).
             0 \<le> snd entry \<and> snd entry \<le> 13)
       \<and> sum_list (map snd (chip_balances (chip_manager half'))) \<le> 13
       \<and> (stock_chips_gone half' \<longleftrightarrow> chips_in_stock (chip_manager half') = 0)
       \<and> (\<forall>mr given gone2 cm2.
             0 \<le> given_chips mr
           \<and> distribute_chips mr (stock_chips_gone half') (chip_manager half')
               = Inr (given, gone2, cm2)
           \<longrightarrow> 0 \<le> given \<and> given \<le> given_chips mr
             \<and> (\<not> stock_chips_gone half' \<longrightarrow>
                   given = min (given_chips mr) (chips_in_stock (chip_manager half'))
                 \<and> chips_in_stock cm2 = chips_in_stock (chip_manager half') - given)
             \<and> (stock_chips_gone half' \<longrightarrow>
                   chips_in_stock cm2 = 0
                 \<and> sum_list (map snd (chip_balances cm2))
                     = sum_list (map snd (chip_balances (chip_manager half')))
                 \<and> (\<exists>b. map_of (chip_balances (chip_manager half'))
                            (player_id (best_turn mr)) = Some b
                        \<and> given = min (given_chips mr) b)))
       \<and> (\<forall>i g2 half2 k2.
             play_half_iter strat rs g' half' i k' = Inr (g2, half2, k2)
           \<longrightarrow> chips_in_stock (chip_manager half2)
                   + sum_list (map snd (chip_balances (chip_manager half2))) = 13
             \<and> chips_in_stock (chip_manager half2) \<le> chips_in_stock (chip_manager half')
             \<and> (stock_chips_gone half' \<longrightarrow>
                   stock_chips_gone half2
                 \<and> chips_in_stock (chip_manager half2) = 0
                 \<and> sum_list (map snd (chip_balances (chip_manager half2)))
                     = sum_list (map snd (chip_balances (chip_manager half')))))"
proof -
  let ?cm = "chip_manager half'"
  have inv0: "chip_inv half0" using half_setup_inv [OF start] by simp
  have inv: "chip_inv half'" using inv0 reach by (rule half_after_inv)
  then have ok: "chip_state_ok (stock_chips_gone half') ?cm" by (simp add: chip_inv_def)
  then have sum: "chips_in_stock ?cm + sum_list (map snd (chip_balances ?cm)) = 13"
    and nonneg: "list_all (\<lambda>entry. 0 \<le> snd entry) (chip_balances ?cm)"
    and stock: "if stock_chips_gone half' then chips_in_stock ?cm = 0
                else 0 < chips_in_stock ?cm"
    by (simp_all add: chip_state_ok_def)
  have s0: "0 \<le> sum_list (map snd (chip_balances ?cm))"
    using nonneg by (rule sum_list_snd_nonneg)
  have st0: "0 \<le> chips_in_stock ?cm" using stock by (simp split: if_splits)
  have 1: "play_half strat rs g halves_ix players_arg k
           = bindE (half_after strat rs 1000 g half0 0 k)
               (\<lambda>r. Inr (fst (snd r), fst r, snd (snd r)))"
  proof -
    have "half_after strat rs 1000 g half0 0 k = play_half_loop strat rs g half0 0 k"
      by (rule half_after_loop) simp
    then show ?thesis by (simp add: play_half_def start)
  qed
  have 5: "\<forall>entry \<in> set (chip_balances ?cm). 0 \<le> snd entry \<and> snd entry \<le> 13"
  proof
    fix entry assume e: "entry \<in> set (chip_balances ?cm)"
    then have lo: "0 \<le> snd entry" using nonneg by (simp add: list_all_iff)
    have "(fst entry, snd entry) \<in> set (chip_balances ?cm)" using e by simp
    from entry_le_sum [OF nonneg this] have "snd entry \<le> 13" using sum st0 by simp
    with lo show "0 \<le> snd entry \<and> snd entry \<le> 13" ..
  qed
  have 7: "stock_chips_gone half' \<longleftrightarrow> chips_in_stock ?cm = 0"
    using stock by (simp split: if_splits)
  have 8: "0 \<le> given \<and> given \<le> given_chips mr
             \<and> (\<not> stock_chips_gone half' \<longrightarrow>
                   given = min (given_chips mr) (chips_in_stock ?cm)
                 \<and> chips_in_stock cm2 = chips_in_stock ?cm - given)
             \<and> (stock_chips_gone half' \<longrightarrow>
                   chips_in_stock cm2 = 0
                 \<and> sum_list (map snd (chip_balances cm2))
                     = sum_list (map snd (chip_balances ?cm))
                 \<and> (\<exists>b. map_of (chip_balances ?cm) (player_id (best_turn mr)) = Some b
                        \<and> given = min (given_chips mr) b))"
    if g: "0 \<le> given_chips mr"
      and d: "distribute_chips mr (stock_chips_gone half') ?cm = Inr (given, gone2, cm2)"
    for mr given gone2 cm2
  proof -
    note dc = distribute_chips_ok [OF d ok g]
    have "stock_chips_gone half' \<Longrightarrow> chips_in_stock cm2 = 0"
      using dc(1) dc(5) by (simp add: chip_state_ok_def)
    then show ?thesis using dc(2) dc(3) dc(4) dc(5) by blast
  qed
  have 9: "chips_in_stock (chip_manager half2)
                   + sum_list (map snd (chip_balances (chip_manager half2))) = 13
             \<and> chips_in_stock (chip_manager half2) \<le> chips_in_stock ?cm
             \<and> (stock_chips_gone half' \<longrightarrow>
                   stock_chips_gone half2
                 \<and> chips_in_stock (chip_manager half2) = 0
                 \<and> sum_list (map snd (chip_balances (chip_manager half2)))
                     = sum_list (map snd (chip_balances ?cm)))"
    if it: "play_half_iter strat rs g' half' i k' = Inr (g2, half2, k2)" for i g2 half2 k2
  proof -
    note pi = play_half_iter_inv [OF it inv]
    have i2: "chip_state_ok (stock_chips_gone half2) (chip_manager half2)"
      using pi(1) by (simp add: chip_inv_def)
    then have "chips_in_stock (chip_manager half2)
                   + sum_list (map snd (chip_balances (chip_manager half2))) = 13"
      by (simp add: chip_state_ok_def)
    moreover have "stock_chips_gone half2 \<Longrightarrow> chips_in_stock (chip_manager half2) = 0"
      using i2 by (simp add: chip_state_ok_def)
    ultimately show ?thesis using pi(2) pi(3) by blast
  qed
  have 4: "chips_in_stock ?cm \<le> 13" using sum s0 by linarith
  have 6: "sum_list (map snd (chip_balances ?cm)) \<le> 13" using sum st0 by linarith
  have d8: "\<forall>mr given gone2 cm2.
             0 \<le> given_chips mr
           \<and> distribute_chips mr (stock_chips_gone half') ?cm = Inr (given, gone2, cm2)
           \<longrightarrow> 0 \<le> given \<and> given \<le> given_chips mr
             \<and> (\<not> stock_chips_gone half' \<longrightarrow>
                   given = min (given_chips mr) (chips_in_stock ?cm)
                 \<and> chips_in_stock cm2 = chips_in_stock ?cm - given)
             \<and> (stock_chips_gone half' \<longrightarrow>
                   chips_in_stock cm2 = 0
                 \<and> sum_list (map snd (chip_balances cm2))
                     = sum_list (map snd (chip_balances ?cm))
                 \<and> (\<exists>b. map_of (chip_balances ?cm) (player_id (best_turn mr)) = Some b
                        \<and> given = min (given_chips mr) b))"
    by (intro allI impI, elim conjE, rule 8)
  have i9: "\<forall>i g2 half2 k2.
             play_half_iter strat rs g' half' i k' = Inr (g2, half2, k2)
           \<longrightarrow> chips_in_stock (chip_manager half2)
                   + sum_list (map snd (chip_balances (chip_manager half2))) = 13
             \<and> chips_in_stock (chip_manager half2) \<le> chips_in_stock ?cm
             \<and> (stock_chips_gone half' \<longrightarrow>
                   stock_chips_gone half2
                 \<and> chips_in_stock (chip_manager half2) = 0
                 \<and> sum_list (map snd (chip_balances (chip_manager half2)))
                     = sum_list (map snd (chip_balances ?cm)))"
    by (intro allI impI, rule 9)
  show ?thesis
    by (rule conjI [OF 1 conjI [OF sum conjI [OF st0 conjI [OF 4 conjI [OF 5 conjI [OF 6
          conjI [OF 7 conjI [OF d8 i9]]]]]]]])
qed

text \<open>
  Two players who both roll 2, 2, 2 in every turn (General 2, three chips, the player
  who throws first wins the tie): after six mini-rounds the stock is gone and the
  balances are 9 and 4.
\<close>

theorem C3_chip_conservation_witness:
  "half_setup two_player_game 0 None = Inr two_player_half
   \<and> (\<exists>g' half' k'.
         half_after dummy_players always_two 6 two_player_game two_player_half 0 0
           = Inr (g', half', k')
       \<and> stock_chips_gone half'
       \<and> chip_manager half' = \<lparr>chips_in_stock = 0, chip_balances = [(0, 9), (1, 4)]\<rparr>
       \<and> chips_in_stock (chip_manager half')
           + sum_list (map snd (chip_balances (chip_manager half'))) = 13)"
proof -
  have s: "half_setup two_player_game 0 None = Inr two_player_half"
    by (simp add: half_setup_def two_player_game_def two_player_half_def)
  have "case half_after dummy_players always_two 6 two_player_game two_player_half 0 0 of
          Inl _ \<Rightarrow> False
        | Inr r \<Rightarrow> stock_chips_gone (fst (snd r))
                   \<and> chip_manager (fst (snd r))
                       = \<lparr>chips_in_stock = 0, chip_balances = [(0, 9), (1, 4)]\<rparr>"
    by code_simp
  then obtain g' half' k' where
    r: "half_after dummy_players always_two 6 two_player_game two_player_half 0 0
          = Inr (g', half', k')"
    and g: "stock_chips_gone half'"
    and c: "chip_manager half' = \<lparr>chips_in_stock = 0, chip_balances = [(0, 9), (1, 4)]\<rparr>"
    by (auto split: sum.splits)
  from C3_chip_conservation [OF s r] have
    "chips_in_stock (chip_manager half')
       + sum_list (map snd (chip_balances (chip_manager half'))) = 13"
    by blast
  with s r g c show ?thesis by blast
qed

subsection \<open>The halves of a round\<close>

lemma keys_update_present:
  "map_of d key = Some c \<Longrightarrow> map fst (AList.update key v d) = map fst d"
  by (induction d) (auto split: if_splits)

lemma initial_balances_keys:
  "set (map fst (foldl (\<lambda>d p. AList.update p (0::int) d) d ps)) = set (map fst d) \<union> set ps"
proof (induction ps arbitrary: d)
  case Nil
  then show ?case by simp
next
  case (Cons p ps)
  have "set (map fst (AList.update p (0::int) d)) = insert p (set (map fst d))"
    by (auto simp add: update_keys)
  then show ?case using Cons.IH [of "AList.update p 0 d"] by auto
qed

lemma half_setup_result:
  assumes "half_setup g halves_ix players_arg = Inr half0"
  shows "halves_index half0 = halves_ix"
    and "half_lost_by half0 = None" and "mini_rounds half0 = []"
    and "set (map fst (chip_balances (chip_manager half0))) = set (active_players half0)"
    and "players_arg = None \<Longrightarrow> halves_ix \<noteq> 2 \<and> active_players half0 = players g"
    and "players_arg = Some ps \<Longrightarrow> ps \<noteq> [] \<Longrightarrow> halves_ix = 2 \<and> active_players half0 = ps"
proof -
  from assms obtain active where
    a: "(if players_arg \<noteq> None \<and> players_arg \<noteq> Some [] then
          (if halves_ix \<noteq> 2 then Inl WarningRaised else Inr (the players_arg))
        else if halves_ix \<noteq> 2 then Inr (players g)
        else Inl ValueError) = Inr active"
    and h: "half0 = \<lparr>halves_index = halves_ix, active_players = active, mini_rounds = [],
               half_lost_by = None, stock_chips_gone = False,
               chip_manager =
                 \<lparr>chips_in_stock = 13,
                  chip_balances = foldl (\<lambda>d p. AList.update p 0 d) [] active\<rparr>\<rparr>"
    by (auto simp add: half_setup_def bindE_Inr_iff)
  show "halves_index half0 = halves_ix" "half_lost_by half0 = None" "mini_rounds half0 = []"
    by (simp_all add: h)
  show "set (map fst (chip_balances (chip_manager half0))) = set (active_players half0)"
    using initial_balances_keys [of "[]" active] by (simp add: h)
  show "halves_ix \<noteq> 2 \<and> active_players half0 = players g" if "players_arg = None"
    using a that by (auto simp add: h split: if_splits)
  show "halves_ix = 2 \<and> active_players half0 = ps" if "players_arg = Some ps" "ps \<noteq> []"
    using a that by (auto simp add: h split: if_splits)
qed

lemma distribute_chips_keys:
  assumes "distribute_chips mr gone cm = Inr (given, gone', cm')"
  shows "map fst (chip_balances cm') = map fst (chip_balances cm)"
proof -
  from assms obtain r l where
    first: "(if \<not> gone then
          (let stock = chips_in_stock cm - given_chips mr in
           if stock \<le> 0
           then Inr (given_chips mr - abs stock, True, cm\<lparr>chips_in_stock := 0\<rparr>)
           else Inr (given_chips mr, False, cm\<lparr>chips_in_stock := stock\<rparr>))
        else
          bindE (dict_get (chip_balances cm) (player_id (best_turn mr))) (\<lambda>b.
            let given = min (given_chips mr) b in
            Inr (given, True,
                 cm\<lparr>chip_balances :=
                      AList.update (player_id (best_turn mr)) (b - given) (chip_balances cm)\<rparr>)))
        = Inr r"
    and l: "map_of (chip_balances (snd (snd r))) (mr_lost_by mr) = Some l"
    and cm': "cm' = (snd (snd r))\<lparr>chip_balances :=
                      AList.update (mr_lost_by mr) (l + fst r) (chip_balances (snd (snd r)))\<rparr>"
    by (auto simp add: distribute_chips_def bindE_Inr_iff)
  have "map fst (chip_balances (snd (snd r))) = map fst (chip_balances cm)"
    using first
    by (auto simp add: Let_def bindE_Inr_iff keys_update_present split: if_splits)
  then show ?thesis using keys_update_present [OF l] by (simp add: cm')
qed

lemma play_mini_round_players:
  "play_mini_round strat rs g mr_players mr_index k = Inr (mr, g', k') \<Longrightarrow>
     players g' = players g \<and> last_mr g' = last_mr g \<and> rounds g' = rounds g"
  by (auto simp add: play_mini_round_def Let_def bindE_Inr_iff split: if_splits)

lemma play_half_iter_result:
  assumes it: "play_half_iter strat rs g half mr_index k = Inr (g', half', k')"
  shows "players g' = players g \<and> rounds g' = rounds g
       \<and> halves_index half' = halves_index half
       \<and> map fst (chip_balances (chip_manager half'))
           = map fst (chip_balances (chip_manager half))
       \<and> (\<exists>mr active m g1 k1.
             mini_rounds half' = mini_rounds half @ [mr]
           \<and> play_mini_round strat rs g active mr_index k = Inr (m, g1, k1)
           \<and> turns mr = turns m
           \<and> (last_mr g = None \<or> halves_index half = 2 \<longrightarrow> active = active_players half))"
proof -
  from it obtain active r best_type is_out where
    act: "(case last_mr g of
          None \<Rightarrow> Inr (active_players half)
        | Some lm \<Rightarrow>
            if halves_index half \<noteq> 2
            then change_starting_player g (active_players half) (mr_lost_by lm)
            else Inr (active_players half)) = Inr active"
    and mr: "play_mini_round strat rs g active mr_index k = Inr r"
    and rest: "(if is_out then
         Inr ((fst (snd r))\<lparr>last_mr := Some (fst r)\<rparr>,
              half\<lparr>active_players := active,
                   half_lost_by := Some (mr_lost_by (fst r)),
                   mini_rounds := mini_rounds half @ [fst r]\<rparr>,
              snd (snd r))
       else
         bindE (distribute_chips (fst r) (stock_chips_gone half) (chip_manager half)) (\<lambda>d.
         bindE
           (if fst (snd d) then
              (if active \<noteq> []
               then remove_out_players (chip_balances (snd (snd d))) 0 active
               else remove_out_players_of_copy (chip_balances (snd (snd d)))
                      (mini_round_players (fst r)) active)
            else Inr active)
           (\<lambda>active'.
         bindE (check_lost (chip_balances (snd (snd d))) (half_lost_by half)) (\<lambda>lost.
           let mr = (fst r)\<lparr>given_chips := fst d,
                       mini_round_players :=
                         (if active \<noteq> [] then active' else mini_round_players (fst r))\<rparr>
           in Inr ((fst (snd r))\<lparr>last_mr := Some mr\<rparr>,
                   half\<lparr>active_players := active',
                        stock_chips_gone := fst (snd d),
                        chip_manager := snd (snd d),
                        mini_rounds := mini_rounds half @ [mr],
                        half_lost_by := lost\<rparr>,
                   snd (snd r)))))) = Inr (g', half', k')"
    unfolding play_half_iter_def bindE_Inr_iff schock_out_init by auto
  have mr': "play_mini_round strat rs g active mr_index k
               = Inr (fst r, fst (snd r), snd (snd r))"
    using mr by simp
  note pl = play_mini_round_players [OF mr']
  have active: "last_mr g = None \<or> halves_index half = 2 \<longrightarrow> active = active_players half"
    using act by (auto split: option.splits if_splits)
  show ?thesis
  proof (cases is_out)
    case True
    with rest have g': "g' = (fst (snd r))\<lparr>last_mr := Some (fst r)\<rparr>"
      and h: "half' = half\<lparr>active_players := active,
                   half_lost_by := Some (mr_lost_by (fst r)),
                   mini_rounds := mini_rounds half @ [fst r]\<rparr>"
      by simp_all
    have "\<exists>mr active m g1 k1.
             mini_rounds half' = mini_rounds half @ [mr]
           \<and> play_mini_round strat rs g active mr_index k = Inr (m, g1, k1)
           \<and> turns mr = turns m
           \<and> (last_mr g = None \<or> halves_index half = 2 \<longrightarrow> active = active_players half)"
      using mr' active
      by (intro exI [of _ "fst r"] exI [of _ active] exI [of _ "fst (snd r)"]
            exI [of _ "snd (snd r)"]) (simp add: h)
    then show ?thesis using pl by (simp add: g' h)
  next
    case False
    with rest obtain d active' lost where
      d: "distribute_chips (fst r) (stock_chips_gone half) (chip_manager half) = Inr d"
      and g': "g' = (fst (snd r))\<lparr>last_mr := Some ((fst r)\<lparr>given_chips := fst d,
                             mini_round_players :=
                               (if active \<noteq> [] then active' else mini_round_players (fst r))\<rparr>)\<rparr>"
      and h: "half' = half\<lparr>active_players := active',
                        stock_chips_gone := fst (snd d),
                        chip_manager := snd (snd d),
                        mini_rounds := mini_rounds half @
                          [(fst r)\<lparr>given_chips := fst d,
                             mini_round_players :=
                               (if active \<noteq> [] then active' else mini_round_players (fst r))\<rparr>],
                        half_lost_by := lost\<rparr>"
      by (auto simp add: bindE_Inr_iff Let_def)
    have d': "distribute_chips (fst r) (stock_chips_gone half) (chip_manager half)
                = Inr (fst d, fst (snd d), snd (snd d))"
      using d by simp
    note keys = distribute_chips_keys [OF d']
    have "\<exists>mr active m g1 k1.
             mini_rounds half' = mini_rounds half @ [mr]
           \<and> play_mini_round strat rs g active mr_index k = Inr (m, g1, k1)
           \<and> turns mr = turns m
           \<and> (last_mr g = None \<or> halves_index half = 2 \<longrightarrow> active = active_players half)"
      using mr' active
      by (intro exI [of _ "(fst r)\<lparr>given_chips := fst d,
                             mini_round_players :=
                               (if active \<noteq> [] then active' else mini_round_players (fst r))\<rparr>"]
            exI [of _ active] exI [of _ "fst r"] exI [of _ "fst (snd r)"]
            exI [of _ "snd (snd r)"]) (simp add: h)
    then show ?thesis using pl keys by (simp add: g' h)
  qed
qed

lemma play_half_loop_result:
  "play_half_loop strat rs g half mr_index k = Inr (g', half', k') \<Longrightarrow>
     players g' = players g \<and> rounds g' = rounds g
     \<and> halves_index half' = halves_index half
     \<and> map fst (chip_balances (chip_manager half'))
         = map fst (chip_balances (chip_manager half))
     \<and> (\<exists>ms. mini_rounds half' = mini_rounds half @ ms)"
proof (induction strat rs g half mr_index k rule: play_half_loop.induct)
  case (1 strat rs g half mr_index k)
  show ?case
  proof (cases "half_lost_by half = None \<and> mr_index < 1000")
    case False
    with "1.prems" show ?thesis by (subst (asm) play_half_loop.simps) auto
  next
    case True
    with "1.prems" obtain g1 half1 k1 where
      it: "play_half_iter strat rs g half mr_index k = Inr (g1, half1, k1)"
      and rec: "play_half_loop strat rs g1 half1 (Suc mr_index) k1 = Inr (g', half', k')"
      by (subst (asm) play_half_loop.simps) (auto split: sum.splits)
    note ih = "1.IH" [OF True it refl refl rec]
    note st = play_half_iter_result [OF it]
    from st obtain mr where "mini_rounds half1 = mini_rounds half @ [mr]" by blast
    with ih st show ?thesis by auto
  qed
qed

end
